theory Spec2Isabelle
  imports Complex_Main "HOL-Library.Sublist"
begin

section \<open>JavaScript numbers\<close>

text \<open>
  A JavaScript number is a finite value, one of the two infinities, or NaN. Finite values
  are taken as reals: rounding and the sign of zero are left out, the special values are
  kept, since \<open>Math.min\<close>, \<open>Math.max\<close>, division by a zero width and an unknown
  duration produce them in \<open>script.js\<close>.
\<close>

datatype jsnum = NaN | NegInf | Fin real | PosInf

text \<open>\<open>Math.min(a, b)\<close> and \<open>Math.max(a, b)\<close>: NaN as soon as one argument is NaN.\<close>

fun js_min :: "jsnum \<Rightarrow> jsnum \<Rightarrow> jsnum" where
  "js_min NaN b = NaN"
| "js_min a NaN = NaN"
| "js_min NegInf b = NegInf"
| "js_min a NegInf = NegInf"
| "js_min PosInf b = b"
| "js_min a PosInf = a"
| "js_min (Fin x) (Fin y) = Fin (min x y)"

fun js_max :: "jsnum \<Rightarrow> jsnum \<Rightarrow> jsnum" where
  "js_max NaN b = NaN"
| "js_max a NaN = NaN"
| "js_max PosInf b = PosInf"
| "js_max a PosInf = PosInf"
| "js_max NegInf b = b"
| "js_max a NegInf = a"
| "js_max (Fin x) (Fin y) = Fin (max x y)"

text \<open>The infinity with the sign of \<open>x\<close> (\<open>x\<close> is not zero where this is used).\<close>

definition signed_inf :: "real \<Rightarrow> jsnum" where
  "signed_inf x = (if 0 < x then PosInf else NegInf)"

text \<open>The operator \<open>*\<close>: infinity times zero is NaN.\<close>

fun js_mul :: "jsnum \<Rightarrow> jsnum \<Rightarrow> jsnum" where
  "js_mul NaN b = NaN"
| "js_mul a NaN = NaN"
| "js_mul (Fin x) (Fin y) = Fin (x * y)"
| "js_mul (Fin x) PosInf = (if x = 0 then NaN else signed_inf x)"
| "js_mul (Fin x) NegInf = (if x = 0 then NaN else signed_inf (- x))"
| "js_mul PosInf (Fin y) = (if y = 0 then NaN else signed_inf y)"
| "js_mul NegInf (Fin y) = (if y = 0 then NaN else signed_inf (- y))"
| "js_mul PosInf PosInf = PosInf"
| "js_mul NegInf NegInf = PosInf"
| "js_mul PosInf NegInf = NegInf"
| "js_mul NegInf PosInf = NegInf"

text \<open>
  The operator \<open>/\<close>: a finite non-zero value over zero is an infinity, zero over zero is
  NaN (in HOL \<open>x / 0 = 0\<close>, so the case is written out), a finite value over an infinity
  is zero, an infinity over an infinity is NaN.
\<close>

fun js_div :: "jsnum \<Rightarrow> jsnum \<Rightarrow> jsnum" where
  "js_div NaN b = NaN"
| "js_div a NaN = NaN"
| "js_div (Fin x) (Fin y) =
     (if y = 0 then (if x = 0 then NaN else signed_inf x) else Fin (x / y))"
| "js_div (Fin x) PosInf = Fin 0"
| "js_div (Fin x) NegInf = Fin 0"
| "js_div PosInf (Fin y) = (if y < 0 then NegInf else PosInf)"
| "js_div NegInf (Fin y) = (if y < 0 then PosInf else NegInf)"
| "js_div PosInf PosInf = NaN"
| "js_div PosInf NegInf = NaN"
| "js_div NegInf PosInf = NaN"
| "js_div NegInf NegInf = NaN"

text \<open>The operators \<open>+\<close> and \<open>-\<close>: opposite infinities add up to NaN.\<close>

fun js_neg :: "jsnum \<Rightarrow> jsnum" where
  "js_neg NaN = NaN"
| "js_neg NegInf = PosInf"
| "js_neg (Fin x) = Fin (- x)"
| "js_neg PosInf = NegInf"

fun js_add :: "jsnum \<Rightarrow> jsnum \<Rightarrow> jsnum" where
  "js_add NaN b = NaN"
| "js_add a NaN = NaN"
| "js_add (Fin x) (Fin y) = Fin (x + y)"
| "js_add (Fin x) b = b"
| "js_add a (Fin y) = a"
| "js_add PosInf PosInf = PosInf"
| "js_add NegInf NegInf = NegInf"
| "js_add PosInf NegInf = NaN"
| "js_add NegInf PosInf = NaN"

definition js_sub :: "jsnum \<Rightarrow> jsnum \<Rightarrow> jsnum" where
  "js_sub a b = js_add a (js_neg b)"

text \<open>
  The operator \<open>%\<close>: on finite numbers with a non-zero right operand the remainder has
  the sign of the left operand (the quotient is truncated towards zero); the remainder
  by zero and that of an infinity are NaN, the remainder by an infinity is the left
  operand.
\<close>

definition js_trunc :: "real \<Rightarrow> int" where
  "js_trunc x = (if 0 \<le> x then \<lfloor>x\<rfloor> else \<lceil>x\<rceil>)"

definition js_rem :: "real \<Rightarrow> real \<Rightarrow> real" where
  "js_rem a b = a - b * of_int (js_trunc (a / b))"

fun js_mod :: "jsnum \<Rightarrow> jsnum \<Rightarrow> jsnum" where
  "js_mod NaN b = NaN"
| "js_mod a NaN = NaN"
| "js_mod PosInf b = NaN"
| "js_mod NegInf b = NaN"
| "js_mod (Fin x) (Fin y) = (if y = 0 then NaN else Fin (js_rem x y))"
| "js_mod (Fin x) b = Fin x"

text \<open>
  \<open>xs[i]\<close> for a number \<open>i\<close>: the element when \<open>i\<close> is an integer index in range,
  \<open>undefined\<close> (here \<open>None\<close>) otherwise.
\<close>

fun js_index :: "'a list \<Rightarrow> jsnum \<Rightarrow> 'a option" where
  "js_index xs (Fin i) =
     (if 0 \<le> i \<and> of_int \<lfloor>i\<rfloor> = i \<and> nat \<lfloor>i\<rfloor> < length xs
      then Some (xs ! nat \<lfloor>i\<rfloor>) else None)"
| "js_index xs v = None"

section \<open>Files, media elements and the player\<close>

text \<open>
  \<open>updatePlaylist\<close> writes \<open>file.name\<close> into the playlist row through \<open>innerHTML\<close>,
  unescaped, in front of the row's Play button, and then takes the first button of the
  row. What the HTML parser makes of the name decides which button that is: the Play
  button (always so for a name without \<open><\<close>), a button that the name brings itself
  (\<open><button data-idx=7>x.mp3\<close>), or none at all (\<open><!--x.mp3\<close> turns the rest of the row
  into a comment).
\<close>

datatype row_button = PlayButton | OtherButton | NoButton

text \<open>
  A \<open>File\<close> as the player reads it: \<open>file.name\<close>, \<open>file.type\<close>, \<open>file.size\<close>. The HTML
  parser is not modelled; its verdict on the name, the first button of the file's row,
  is kept with the file.
\<close>

record media_file =
  fname :: string
  ftype :: string
  fsize :: nat
  first_button :: row_button

datatype tag = IMG | AUDIO | VIDEO

text \<open>
  The element behind \<open>this.currentMedia\<close>. \<open>src\<close> is the object URL, a number standing
  for the string \<open>URL.createObjectURL\<close> returned. The media fields are those of an
  audio or video element; for an \<open>img\<close> they are never read by the player.
\<close>

record element =
  tagName :: tag
  src :: nat
  currentTime :: real
  duration :: jsnum
  paused :: bool
  muted :: bool
  volume :: real

text \<open>What \<open>this.playlistEl\<close> shows.\<close>

datatype playlist_view =
    NoList
  | SavedNotice
  | Listing "row_button list" jsnum

text \<open>
  The rows that the listing holds, each by the first button in it, which carries the
  click handler; and their number.
\<close>

fun rows_of :: "playlist_view \<Rightarrow> row_button list" where
  "rows_of (Listing bs a) = bs"
| "rows_of v = []"

definition shown_entries :: "playlist_view \<Rightarrow> nat" where
  "shown_entries v = length (rows_of v)"

text \<open>
  The fields of \<open>MediaPlayer\<close>, then the parts of the page and of the platform that the
  methods read or write: the error panel, the drop zone, the playlist listing, the
  width of the progress fill (in percent), the volume slider, the object URLs the
  platform has issued and not revoked, and what \<open>saveState\<close> last wrote to
  \<open>localStorage\<close>.
  Texts and styles that no method reads back (time display, button icons, file info,
  loading spinner, visibility of the controls) are left out.
\<close>

record player =
  currentMedia :: "element option"
  playlist :: "media_file list"
  currentIndex :: jsnum
  isPlaying :: bool
  loop :: bool
  shuffle :: bool
  objectUrls :: "nat set"
  thumbDragging :: bool
  errorMsg :: "string option"
  dropZoneHidden :: bool
  playlistEl :: playlist_view
  progressFill :: real
  volumeSlider :: real
  urlCounter :: nat
  liveUrls :: "nat set"
  saved :: "(media_file list \<times> jsnum) option"

text \<open>
  A method returns, or an uncaught \<open>TypeError\<close> leaves it; the fields keep what was
  written before the throw.
\<close>

datatype outcome = Returned player | Threw player

fun state_of :: "outcome \<Rightarrow> player" where
  "state_of (Returned s) = s"
| "state_of (Threw s) = s"

fun returned :: "outcome \<Rightarrow> bool" where
  "returned (Returned s) = True"
| "returned (Threw s) = False"

text \<open>Run \<open>k\<close> after a call that may throw.\<close>

fun and_then :: "outcome \<Rightarrow> (player \<Rightarrow> outcome) \<Rightarrow> outcome" where
  "and_then (Returned s) k = k s"
| "and_then (Threw s) k = Threw s"

text \<open>
  A pointer event together with \<open>this.progressBar.getBoundingClientRect()\<close> at that
  moment: the pointer's \<open>clientX\<close> (of the mouse event or of its first touch), the
  bar's \<open>left\<close> and \<open>width\<close>.
\<close>

record pointer =
  clientX :: real
  rectLeft :: real
  rectWidth :: real

text \<open>
  What the constructor finds in \<open>localStorage\<close>: \<open>JSON.parse(getItem('ump_playlist_meta')
  || 'null')\<close> throws, gives an array of some length, or gives another value;
  \<open>Number(getItem('ump_index') || '0')\<close> is a number.
\<close>

datatype meta_read = MetaThrows | MetaArray nat | MetaOther

record stored =
  meta :: meta_read
  idx :: jsnum

section \<open>The methods of MediaPlayer\<close>

definition clearError :: "player \<Rightarrow> player" where
  "clearError s = s\<lparr>errorMsg := None, dropZoneHidden := False\<rparr>"

definition showError :: "player \<Rightarrow> string \<Rightarrow> player" where
  "showError s message = (clearError s)\<lparr>errorMsg := Some message\<rparr>"

text \<open>
  \<open>updatePlaylist\<close>. With more than one file it empties the listing and builds the rows
  in order; in each it calls \<open>item.querySelector('button').addEventListener\<close>, which
  throws in a row without a button, before that row is appended. \<open>rendered\<close> is the
  state it leaves, \<open>rows_render\<close> says whether it gets through.
\<close>

definition rows_render :: "media_file list \<Rightarrow> bool" where
  "rows_render fs \<longleftrightarrow> length fs \<le> 1 \<or> NoButton \<notin> set (map first_button fs)"

definition rendered :: "player \<Rightarrow> player" where
  "rendered s =
     (if length (playlist s) \<le> 1 then s\<lparr>playlistEl := NoList\<rparr>
      else s\<lparr>playlistEl :=
               Listing (takeWhile (\<lambda>b. b \<noteq> NoButton) (map first_button (playlist s)))
                 (currentIndex s)\<rparr>)"

definition updatePlaylist :: "player \<Rightarrow> outcome" where
  "updatePlaylist s =
     (if rows_render (playlist s) then Returned (rendered s) else Threw (rendered s))"

definition saveState :: "player \<Rightarrow> player" where
  "saveState s = s\<lparr>saved := Some (playlist s, currentIndex s)\<rparr>"

text \<open>The filter of \<open>handleFiles\<close>: \<open>file.type.startsWith(...)\<close>.\<close>

definition is_media :: "media_file \<Rightarrow> bool" where
  "is_media f \<longleftrightarrow>
     prefix ''video/'' (ftype f) \<or> prefix ''audio/'' (ftype f) \<or> prefix ''image/'' (ftype f)"

text \<open>\<open>(file.type || '').split('/')[0] || 'unknown'\<close>.\<close>

definition major_type :: "string \<Rightarrow> string" where
  "major_type t =
     (let h = takeWhile (\<lambda>c. c \<noteq> CHR ''/'') t in if h = [] then ''unknown'' else h)"

text \<open>
  \<open>document.createElement\<close> and the assignments of \<open>loadMedia\<close> to the new element:
  a media element starts paused at position 0 with an unknown duration; \<open>el.volume\<close> is
  set from the slider for audio and video only (an element's own default is 1).
\<close>

definition new_element :: "tag \<Rightarrow> nat \<Rightarrow> real \<Rightarrow> element" where
  "new_element t url slider =
     \<lparr>tagName = t, src = url, currentTime = 0, duration = NaN, paused = True,
      muted = False, volume = (if t = IMG then 1 else slider / 100)\<rparr>"

definition tag_of :: "string \<Rightarrow> tag option" where
  "tag_of ty =
     (if ty = ''image'' then Some IMG
      else if ty = ''audio'' then Some AUDIO
      else if ty = ''video'' then Some VIDEO
      else None)"

text \<open>
  \<open>loadMedia(file)\<close>; \<open>None\<close> is \<open>undefined\<close>, on which \<open>file.type\<close> throws after the
  previous element has been paused and removed. The pause acts on the element that is
  dropped in the next statement, so only the removal is visible in the state. A throw
  in \<open>updatePlaylist\<close> comes after the element has been created and shown.
  \<open>URL.createObjectURL\<close> issues a URL never issued before: the counter's value.
\<close>

definition loadMedia :: "player \<Rightarrow> media_file option \<Rightarrow> outcome" where
  "loadMedia s fo =
     (let s1 = (clearError s)\<lparr>currentMedia := None\<rparr> in
      case fo of
        None \<Rightarrow> Threw s1
      | Some f \<Rightarrow>
          (case tag_of (major_type (ftype f)) of
             None \<Rightarrow> Returned (showError s1 ''Unsupported file type'')
           | Some t \<Rightarrow>
               let url = urlCounter s1;
                   el = new_element t url (volumeSlider s1)
               in updatePlaylist
                    (s1\<lparr>urlCounter := Suc url,
                        liveUrls := insert url (liveUrls s1),
                        objectUrls := insert url (objectUrls s1),
                        currentMedia := Some el,
                        dropZoneHidden := True\<rparr>)))"

definition handleFiles :: "player \<Rightarrow> media_file list \<Rightarrow> outcome" where
  "handleFiles s files =
     (let mediaFiles = filter is_media files in
      if length mediaFiles = 0 then Returned (showError s ''No supported media files found'')
      else
        let s1 = s\<lparr>playlist := playlist s @ mediaFiles\<rparr> in
        if length (playlist s1) = 0 then Returned s1
        else
          and_then
            (if currentMedia s1 = None
             then loadMedia (s1\<lparr>currentIndex := Fin 0\<rparr>) (js_index (playlist s1) (Fin 0))
             else Returned s1)
            (\<lambda>s2. and_then (updatePlaylist s2) (\<lambda>s3. Returned (saveState s3))))"

text \<open>A media element is there and it is not an image: the guard of most controls.\<close>

definition playable :: "player \<Rightarrow> element option" where
  "playable s =
     (case currentMedia s of
        None \<Rightarrow> None
      | Some el \<Rightarrow> if tagName el = IMG then None else Some el)"

text \<open>
  \<open>togglePlay\<close>: \<open>pause()\<close> and \<open>play()\<close> set the element's \<open>paused\<close>; a failure of
  \<open>play()\<close> arrives later, as the rejection of its promise.
\<close>

definition togglePlay :: "player \<Rightarrow> player" where
  "togglePlay s =
     (case playable s of
        None \<Rightarrow> s
      | Some el \<Rightarrow>
          (if isPlaying s then s\<lparr>currentMedia := Some (el\<lparr>paused := True\<rparr>)\<rparr>
           else s\<lparr>currentMedia := Some (el\<lparr>paused := False\<rparr>)\<rparr>)
          \<lparr>isPlaying := \<not> isPlaying s\<rparr>)"

text \<open>
  The rejection of the promise of \<open>togglePlay\<close>'s \<open>play()\<close>: the platform leaves the
  element paused and runs the \<open>catch\<close> callback, which logs a warning and shows the
  error.
\<close>

definition play_rejected :: "player \<Rightarrow> player" where
  "play_rejected s =
     showError
       (case currentMedia s of
          None \<Rightarrow> s
        | Some el \<Rightarrow> s\<lparr>currentMedia := Some (el\<lparr>paused := True\<rparr>)\<rparr>)
       ''Unable to play media (autoplay blocked?)''"

text \<open>\<open>playPrevious\<close> and \<open>playNext\<close>; \<open>r\<close> is what \<open>Math.random()\<close> returns, in \<open>[0, 1)\<close>.\<close>

definition playPrevious :: "real \<Rightarrow> player \<Rightarrow> outcome" where
  "playPrevious r s =
     (if length (playlist s) = 0 then Returned s
      else
        let n = real (length (playlist s));
            s1 = (if shuffle s then s\<lparr>currentIndex := Fin (of_int \<lfloor>r * n\<rfloor>)\<rparr>
                  else s\<lparr>currentIndex :=
                         js_mod (js_add (js_sub (currentIndex s) (Fin 1)) (Fin n)) (Fin n)\<rparr>)
        in and_then (loadMedia s1 (js_index (playlist s1) (currentIndex s1)))
             (\<lambda>s2. Returned (saveState s2)))"

definition playNext :: "real \<Rightarrow> player \<Rightarrow> outcome" where
  "playNext r s =
     (if length (playlist s) = 0 then Returned s
      else
        let n = real (length (playlist s));
            s1 = (if shuffle s then s\<lparr>currentIndex := Fin (of_int \<lfloor>r * n\<rfloor>)\<rparr>
                  else s\<lparr>currentIndex := js_mod (js_add (currentIndex s) (Fin 1)) (Fin n)\<rparr>)
        in and_then (loadMedia s1 (js_index (playlist s1) (currentIndex s1)))
             (\<lambda>s2. Returned (saveState s2)))"

text \<open>
  \<open>onMediaEnded\<close>. With no element, reading \<open>this.currentMedia.currentTime\<close> throws;
  an \<open>img\<close> has no \<open>play\<close>, so the call throws after the assignment.
\<close>

definition onMediaEnded :: "real \<Rightarrow> player \<Rightarrow> outcome" where
  "onMediaEnded r s =
     (if loop s then
        (case currentMedia s of
           None \<Rightarrow> Threw s
         | Some el \<Rightarrow>
             if tagName el = IMG then Threw (s\<lparr>currentMedia := Some (el\<lparr>currentTime := 0\<rparr>)\<rparr>)
             else Returned (s\<lparr>currentMedia := Some (el\<lparr>currentTime := 0, paused := False\<rparr>)\<rparr>))
      else playNext r s)"


text \<open>\<open>handleMediaError\<close>: \<open>code\<close> is \<open>e?.target?.error?.code\<close>, \<open>None\<close> when there is no error object.\<close>

definition handleMediaError :: "nat option \<Rightarrow> player \<Rightarrow> player" where
  "handleMediaError code s =
     showError s
       (if code = Some 1 then ''Media playback was aborted''
        else if code = Some 2 then ''Network error while loading media''
        else if code = Some 3 then ''Media decoding failed''
        else if code = Some 4 then ''Media format not supported''
        else ''Unable to play this media file'')"

definition toggleMute :: "player \<Rightarrow> player" where
  "toggleMute s =
     (case playable s of
        None \<Rightarrow> s
      | Some el \<Rightarrow> s\<lparr>currentMedia := Some (el\<lparr>muted := \<not> muted el\<rparr>)\<rparr>)"

text \<open>
  \<open>setVolume(value)\<close>. The slider keeps its value within the range the page gives it
  (the page is not part of the sources); a volume outside \<open>[0, 1]\<close>, which the
  platform would refuse, is not modelled.
\<close>

definition setVolume :: "real \<Rightarrow> player \<Rightarrow> player" where
  "setVolume v s =
     (case playable s of
        None \<Rightarrow> s
      | Some el \<Rightarrow> s\<lparr>currentMedia := Some (el\<lparr>volume := v / 100\<rparr>)\<rparr>)"

text \<open>
  The assignment \<open>this.progressFill.style.width = v + '%'\<close>: the platform keeps the
  old width when the text is not a valid width (\<open>NaN%\<close>, \<open>Infinity%\<close>, a negative
  percentage).
\<close>

definition set_width :: "player \<Rightarrow> jsnum \<Rightarrow> player" where
  "set_width s v =
     (case v of
        Fin p \<Rightarrow> if 0 \<le> p then s\<lparr>progressFill := p\<rparr> else s
      | _ \<Rightarrow> s)"

definition updateProgress :: "player \<Rightarrow> player" where
  "updateProgress s =
     (case playable s of
        None \<Rightarrow> s
      | Some el \<Rightarrow>
          set_width s (js_mul (js_div (Fin (currentTime el)) (duration el)) (Fin 100)))"

text \<open>
  The assignment \<open>this.currentMedia.currentTime = v\<close>: the platform throws a
  \<open>TypeError\<close> on a value that is not finite.
\<close>

definition set_currentTime :: "player \<Rightarrow> element \<Rightarrow> jsnum \<Rightarrow> outcome" where
  "set_currentTime s el v =
     (case v of
        Fin t \<Rightarrow> Returned (s\<lparr>currentMedia := Some (el\<lparr>currentTime := t\<rparr>)\<rparr>)
      | _ \<Rightarrow> Threw s)"

text \<open>\<open>(clientX - rect.left) / rect.width\<close> and \<open>Math.max(0, Math.min(1, x))\<close>.\<close>

definition pointer_fraction :: "pointer \<Rightarrow> jsnum" where
  "pointer_fraction e = js_div (Fin (clientX e - rectLeft e)) (Fin (rectWidth e))"

definition clamp01 :: "jsnum \<Rightarrow> jsnum" where
  "clamp01 x = js_max (Fin 0) (js_min (Fin 1) x)"

definition seek :: "pointer \<Rightarrow> player \<Rightarrow> outcome" where
  "seek e s =
     (case playable s of
        None \<Rightarrow> Returned s
      | Some el \<Rightarrow>
          let percent = clamp01 (pointer_fraction e) in
          and_then (set_currentTime s el (js_mul percent (duration el)))
            (\<lambda>s1. Returned (updateProgress s1)))"

datatype key = Space | ArrowLeft | ArrowRight | ArrowUp | ArrowDown | OtherKey

definition handleKeyboard :: "key \<Rightarrow> player \<Rightarrow> outcome" where
  "handleKeyboard k s =
     (case playable s of
        None \<Rightarrow> Returned s
      | Some el \<Rightarrow>
          (case k of
             Space \<Rightarrow> Returned (togglePlay s)
           | ArrowLeft \<Rightarrow> set_currentTime s el (Fin (max 0 (currentTime el - 5)))
           | ArrowRight \<Rightarrow>
               set_currentTime s el (js_min (duration el) (Fin (currentTime el + 5)))
           | ArrowUp \<Rightarrow>
               (let s1 = s\<lparr>volumeSlider := min 100 (volumeSlider s + 10)\<rparr>
                in Returned (setVolume (volumeSlider s1) s1))
           | ArrowDown \<Rightarrow>
               (let s1 = s\<lparr>volumeSlider := max 0 (volumeSlider s - 10)\<rparr>
                in Returned (setVolume (volumeSlider s1) s1))
           | OtherKey \<Rightarrow> Returned s))"

definition toggleLoop :: "player \<Rightarrow> player" where
  "toggleLoop s = s\<lparr>loop := \<not> loop s\<rparr>"

definition toggleShuffle :: "player \<Rightarrow> player" where
  "toggleShuffle s = s\<lparr>shuffle := \<not> shuffle s\<rparr>"

definition startThumbDrag :: "player \<Rightarrow> player" where
  "startThumbDrag s = s\<lparr>thumbDragging := True\<rparr>"

definition onThumbMove :: "pointer \<Rightarrow> player \<Rightarrow> player" where
  "onThumbMove e s =
     (if \<not> thumbDragging s then s
      else
        (case playable s of
           None \<Rightarrow> s
         | Some el \<Rightarrow> set_width s (js_mul (clamp01 (pointer_fraction e)) (Fin 100))))"

definition endThumbDrag :: "pointer \<Rightarrow> player \<Rightarrow> outcome" where
  "endThumbDrag e s =
     (if \<not> thumbDragging s then Returned s
      else
        let s1 = s\<lparr>thumbDragging := False\<rparr> in
        (case playable s1 of
           None \<Rightarrow> Returned s1
         | Some el \<Rightarrow>
             let pct = clamp01 (pointer_fraction e) in
             set_currentTime s1 el (js_mul pct (duration el))))"

text \<open>
  \<open>restoreState\<close>: when reading the store throws, the \<open>catch\<close> leaves everything as it
  is; otherwise the notice is shown when \<open>Array.isArray(meta) && meta.length>0\<close>, and
  \<open>currentIndex\<close> becomes \<open>isFinite(idx) ? idx : 0\<close>.
\<close>

fun nonempty_array :: "meta_read \<Rightarrow> bool" where
  "nonempty_array (MetaArray n) = (n > 0)"
| "nonempty_array m = False"

fun finite_or_0 :: "jsnum \<Rightarrow> real" where
  "finite_or_0 (Fin x) = x"
| "finite_or_0 v = 0"

definition restoreState :: "stored \<Rightarrow> player \<Rightarrow> player" where
  "restoreState st s =
     (if meta st = MetaThrows then s
      else
        let s1 = (if nonempty_array (meta st) then s\<lparr>playlistEl := SavedNotice\<rparr> else s)
        in s1\<lparr>currentIndex := Fin (finite_or_0 (idx st))\<rparr>)"

text \<open>\<open>cleanupUrls\<close>: \<open>URL.revokeObjectURL\<close> on every member, then \<open>clear()\<close>.\<close>

definition cleanupUrls :: "player \<Rightarrow> player" where
  "cleanupUrls s = s\<lparr>liveUrls := liveUrls s - objectUrls s, objectUrls := {}\<rparr>"

text \<open>
  The constructor: the field initialisers, \<open>this.thumbDragging = false\<close> of
  \<open>bindEvents\<close>, then \<open>restoreState\<close>. The page is not part of the sources: its slider
  starts at \<open>slider\<close>, its playlist area and error panel start empty, and the platform
  has issued no object URL to it yet.
\<close>

definition initial_fields :: "real \<Rightarrow> player" where
  "initial_fields slider =
     \<lparr>currentMedia = None, playlist = [], currentIndex = Fin 0, isPlaying = False,
      loop = False, shuffle = False, objectUrls = {}, thumbDragging = False,
      errorMsg = None, dropZoneHidden = False, playlistEl = NoList,
      progressFill = 0, volumeSlider = slider, urlCounter = 0, liveUrls = {},
      saved = None\<rparr>"

definition constructor :: "stored \<Rightarrow> real \<Rightarrow> player" where
  "constructor st slider = restoreState st (initial_fields slider)"

text \<open>
  The click handler that \<open>updatePlaylist\<close> puts on the first button of a row, with
  \<open>i = Number(e.target.dataset.idx)\<close>:
  \<open>this.currentIndex = i; this.loadMedia(this.playlist[i]); this.saveState()\<close>.
\<close>

definition item_click :: "jsnum \<Rightarrow> player \<Rightarrow> outcome" where
  "item_click i s =
     (let s1 = s\<lparr>currentIndex := i\<rparr> in
      and_then (loadMedia s1 (js_index (playlist s1) i))
        (\<lambda>s2. Returned (saveState s2)))"

section \<open>Events\<close>

text \<open>
  Everything \<open>bindEvents\<close>, \<open>loadMedia\<close>, \<open>updatePlaylist\<close> and \<open>showError\<close>
  register a handler for, and the rejection of the promise of \<open>play()\<close>. A click on
  the button of a playlist row carries the row and the number that the handler reads
  from \<open>data-idx\<close>. The platform's own part of an event comes first (the slider has
  its new value before \<open>input\<close> fires, the element its new position before
  \<open>timeupdate\<close>, its duration before \<open>loadedmetadata\<close>); a media event is taken to be
  one of the current element.
  \<open>dragover\<close> and \<open>dragleave\<close> only switch a style class; \<open>toggleTheme\<close> is called by
  the theme button's handler but defined nowhere, so that call throws and changes
  nothing.
\<close>

datatype event =
    FilesChosen "media_file list"
  | PlayClick
  | PrevClick real
  | NextClick real
  | MuteClick
  | VolumeInput real
  | ProgressClick pointer
  | LoopClick
  | ShuffleClick
  | ThemeClick
  | ThumbDown
  | PointerMove pointer
  | PointerUp pointer
  | KeyDown key
  | BeforeUnload
  | ItemClick nat jsnum
  | LoadedMetadata jsnum
  | TimeUpdate real
  | Ended real
  | MediaError "nat option"
  | PlayRejected
  | RetryClick

definition platform_media :: "(element \<Rightarrow> element) \<Rightarrow> player \<Rightarrow> player" where
  "platform_media f s =
     (case playable s of
        None \<Rightarrow> s
      | Some el \<Rightarrow> s\<lparr>currentMedia := Some (f el)\<rparr>)"

fun fire :: "event \<Rightarrow> player \<Rightarrow> outcome" where
  "fire (FilesChosen files) s = handleFiles s files"
| "fire PlayClick s = Returned (togglePlay s)"
| "fire (PrevClick r) s = playPrevious r s"
| "fire (NextClick r) s = playNext r s"
| "fire MuteClick s = Returned (toggleMute s)"
| "fire (VolumeInput v) s = Returned (setVolume v (s\<lparr>volumeSlider := v\<rparr>))"
| "fire (ProgressClick e) s = seek e s"
| "fire LoopClick s = Returned (toggleLoop s)"
| "fire ShuffleClick s = Returned (toggleShuffle s)"
| "fire ThemeClick s = Threw s"
| "fire ThumbDown s = Returned (startThumbDrag s)"
| "fire (PointerMove e) s = Returned (onThumbMove e s)"
| "fire (PointerUp e) s = endThumbDrag e s"
| "fire (KeyDown k) s = handleKeyboard k s"
| "fire BeforeUnload s = Returned (cleanupUrls s)"
| "fire (ItemClick row i) s = item_click i s"
| "fire (LoadedMetadata d) s = Returned (platform_media (\<lambda>el. el\<lparr>duration := d\<rparr>) s)"
| "fire (TimeUpdate t) s =
     Returned (updateProgress (platform_media (\<lambda>el. el\<lparr>currentTime := t\<rparr>) s))"
| "fire (Ended r) s = onMediaEnded r s"
| "fire (MediaError code) s = Returned (handleMediaError code s)"
| "fire PlayRejected s = Returned (play_rejected s)"
| "fire RetryClick s = Returned (clearError s)"

text \<open>
  What the platform guarantees of an event's data: \<open>Math.random()\<close> lies in \<open>[0, 1)\<close>,
  a file whose name has no \<open><\<close> gets the Play button as the first button of its row, a
  click on a playlist button needs a row that the listing holds, and the retry button
  exists only in an error panel. The other events are allowed in every state, which
  admits more sessions than a browser produces.

  The handler of a row reads \<open>Number(e.target.dataset.idx)\<close>. On the Play button that is
  the row's index. On a button that the name brought it is whatever the name says, or
  NaN when it says nothing: the model allows every number there. Whether the listing
  is visible is not modelled: a click is allowed on every row that it holds. Script
  that markup in a name could also carry is not an event of this model.
\<close>

definition has_markup :: "media_file \<Rightarrow> bool" where
  "has_markup f \<longleftrightarrow> CHR ''<'' \<in> set (fname f)"

definition name_ok :: "media_file \<Rightarrow> bool" where
  "name_ok f \<longleftrightarrow> has_markup f \<or> first_button f = PlayButton"

fun possible :: "player \<Rightarrow> event \<Rightarrow> bool" where
  "possible s (FilesChosen files) = list_all name_ok files"
| "possible s (PrevClick r) = (0 \<le> r \<and> r < 1)"
| "possible s (NextClick r) = (0 \<le> r \<and> r < 1)"
| "possible s (Ended r) = (0 \<le> r \<and> r < 1)"
| "possible s (ItemClick row i) =
     (row < shown_entries (playlistEl s) \<and>
      (i = Fin (real row) \<or> rows_of (playlistEl s) ! row = OtherButton))"
| "possible s RetryClick = (errorMsg s \<noteq> None)"
| "possible s ev = True"

text \<open>The states a session can be in: after the constructor, then after any event.\<close>

inductive reachable :: "player \<Rightarrow> bool" where
  start: "reachable (constructor st slider)"
| after: "reachable s \<Longrightarrow> possible s ev \<Longrightarrow> reachable (state_of (fire ev s))"

text \<open>
  The sessions in which every click on a playlist button reads the index of its row, as
  it does when no name brings a button of its own.
\<close>

fun plain :: "event \<Rightarrow> bool" where
  "plain (ItemClick row i) = (i = Fin (real row))"
| "plain ev = True"

inductive plain_session :: "player \<Rightarrow> bool" where
  plain_start: "plain_session (constructor st slider)"
| plain_after:
    "plain_session s \<Longrightarrow> possible s ev \<Longrightarrow> plain ev \<Longrightarrow> plain_session (state_of (fire ev s))"

section \<open>Invariants of a session\<close>

text \<open>
  \<open>currentIndex\<close> is an index into the playlist: a whole number with
  \<open>0 \<le> currentIndex < playlist.length\<close>.
\<close>

fun index_below :: "nat \<Rightarrow> jsnum \<Rightarrow> bool" where
  "index_below n (Fin i) = (0 \<le> i \<and> i < real n \<and> of_int \<lfloor>i\<rfloor> = i)"
| "index_below n v = False"

definition index_ok :: "player \<Rightarrow> bool" where
  "index_ok s \<longleftrightarrow> index_below (length (playlist s)) (currentIndex s)"

text \<open>The listing shows no more entries than the playlist has.\<close>

definition listing_ok :: "player \<Rightarrow> bool" where
  "listing_ok s \<longleftrightarrow> shown_entries (playlistEl s) \<le> length (playlist s)"

text \<open>
  What holds between the events of a session whose playlist clicks read their row's
  index: no element without a playlist, an index in range once there is a playlist,
  and a listing that matches.
\<close>

definition session_inv :: "player \<Rightarrow> bool" where
  "session_inv s \<longleftrightarrow>
     (playlist s = [] \<longrightarrow> currentMedia s = None) \<and>
     (playlist s \<noteq> [] \<longrightarrow> index_ok s) \<and>
     listing_ok s"

text \<open>Every URL in \<open>objectUrls\<close> has been issued, so the next one is not among them.\<close>

definition urls_fresh :: "player \<Rightarrow> bool" where
  "urls_fresh s \<longleftrightarrow> (\<forall>u \<in> objectUrls s. u < urlCounter s)"

text \<open>
  Two states with the same playlist, index, listing and URL bookkeeping, and an element
  in both or in neither.
\<close>

definition same_session :: "player \<Rightarrow> player \<Rightarrow> bool" where
  "same_session t s \<longleftrightarrow>
     playlist t = playlist s \<and> currentIndex t = currentIndex s \<and>
     playlistEl t = playlistEl s \<and> (currentMedia t = None \<longleftrightarrow> currentMedia s = None) \<and>
     objectUrls t = objectUrls s \<and> urlCounter t = urlCounter s \<and> liveUrls t = liveUrls s"

text \<open>
  The argument of \<open>loadMedia\<close> is a file whose type starts with \<open>image\<close>, \<open>audio\<close> or
  \<open>video\<close> before the first slash: the load creates an element.
\<close>

definition loadable :: "media_file option \<Rightarrow> bool" where
  "loadable fo = (case fo of None \<Rightarrow> False | Some f \<Rightarrow> tag_of (major_type (ftype f)) \<noteq> None)"

text \<open>
  From \<open>s\<close> to \<open>t\<close> the URL bookkeeping is untouched, or the next URL has been issued
  and added to \<open>objectUrls\<close>.
\<close>

definition urls_step :: "player \<Rightarrow> player \<Rightarrow> bool" where
  "urls_step s t \<longleftrightarrow>
     (urlCounter t = urlCounter s \<and> objectUrls t = objectUrls s \<and> liveUrls t = liveUrls s) \<or>
     (urlCounter t = Suc (urlCounter s) \<and> objectUrls t = insert (urlCounter s) (objectUrls s) \<and>
      liveUrls t = insert (urlCounter s) (liveUrls s))"

section \<open>Example sessions\<close>

definition song1 :: media_file where
  "song1 = \<lparr>fname = ''a.mp3'', ftype = ''audio/mpeg'', fsize = 1000, first_button = PlayButton\<rparr>"

definition song2 :: media_file where
  "song2 = \<lparr>fname = ''b.ogg'', ftype = ''audio/ogg'', fsize = 2000, first_button = PlayButton\<rparr>"

definition memo :: media_file where
  "memo = \<lparr>fname = ''notes.txt'', ftype = ''text/plain'', fsize = 10, first_button = PlayButton\<rparr>"

text \<open>
  An audio file whose name brings a button with \<open>data-idx=7\<close>: the row reads
  \<open><span>1. <button data-idx=7>x.mp3</span><button class="small-btn" data-idx="0">\<close>, and
  its first button is the one of the name.
\<close>

definition trick :: media_file where
  "trick = \<lparr>fname = ''<button data-idx=7>x.mp3'', ftype = ''audio/mpeg'', fsize = 1000,
            first_button = OtherButton\<rparr>"

text \<open>A session that starts on an empty store, and one whose store holds index 3.\<close>

definition fresh :: player where
  "fresh = constructor \<lparr>meta = MetaOther, idx = Fin 0\<rparr> 50"

definition restored3 :: player where
  "restored3 = constructor \<lparr>meta = MetaArray 2, idx = Fin 3\<rparr> 50"

text \<open>After choosing three files, one of them a text file; then with the duration known.\<close>

definition loaded2 :: player where
  "loaded2 = state_of (fire (FilesChosen [song1, memo, song2]) fresh)"

definition timed :: player where
  "timed = state_of (fire (LoadedMetadata (Fin 200)) loaded2)"

text \<open>After choosing the file with the button in its name and a song.\<close>

definition tricked :: player where
  "tricked = state_of (fire (FilesChosen [trick, song2]) fresh)"

section \<open>The clamp, in the words of the specification\<close>

text \<open>
  A fraction outside \<open>[0, 1]\<close> goes to the nearest bound, one inside stays. This follows
  the specification, to be compared with \<open>clamp01\<close>, which follows the code.
\<close>

definition spec_clamp :: "real \<Rightarrow> real" where
  "spec_clamp x = (if x < 0 then 0 else if 1 < x then 1 else x)"

text \<open>
  Both \<open>seek\<close> and, during a drag, \<open>endThumbDrag\<close> return and leave the element at
  position \<open>t\<close>.
\<close>

definition seeks_to :: "pointer \<Rightarrow> player \<Rightarrow> real \<Rightarrow> bool" where
  "seeks_to e s t \<longleftrightarrow>
     returned (seek e s) \<and>
     map_option currentTime (currentMedia (state_of (seek e s))) = Some t \<and>
     (thumbDragging s \<longrightarrow>
        returned (endThumbDrag e s) \<and>
        map_option currentTime (currentMedia (state_of (endThumbDrag e s))) = Some t)"

section \<open>Arithmetic of indices\<close>

lemma js_rem_nat: "0 < b \<Longrightarrow> js_rem (real a) (real b) = real (a mod b)"
proof -
  assume "0 < b"
  have t: "js_trunc (real a / real b) = int (a div b)"
    by (simp add: js_trunc_def floor_divide_of_nat_eq)
  have "real a = real (b * (a div b) + a mod b)" by simp
  then have "real a - real b * real (a div b) = real (a mod b)"
    by (simp only: of_nat_add of_nat_mult)
  then show ?thesis by (simp add: js_rem_def t)
qed

lemma js_rem_next: "0 < n \<Longrightarrow> js_rem (real k + 1) (real n) = real (Suc k mod n)"
  using js_rem_nat [of n "Suc k"] by (simp add: add.commute)

lemma js_rem_prev: "0 < n \<Longrightarrow> js_rem (real k - 1 + real n) (real n) = real ((k + n - 1) mod n)"
proof -
  assume n: "0 < n"
  then have "real k - 1 + real n = real (k + n - 1)" by (simp add: of_nat_diff)
  then show ?thesis using js_rem_nat [OF n, of "k + n - 1"] by simp
qed

lemma js_mod_next:
  "0 < n \<Longrightarrow> js_mod (js_add (Fin (real k)) (Fin 1)) (Fin (real n)) = Fin (real (Suc k mod n))"
  by (simp add: js_rem_next)

lemma js_mod_prev:
  "0 < n \<Longrightarrow>
   js_mod (js_add (js_sub (Fin (real k)) (Fin 1)) (Fin (real n))) (Fin (real n)) =
     Fin (real ((k + n - 1) mod n))"
  using js_rem_prev [of n k] by (simp add: js_sub_def)

lemma random_index:
  assumes "0 \<le> r" "r < 1" "0 < n"
  shows "\<exists>k<n. of_int \<lfloor>r * real n\<rfloor> = real k"
proof -
  have a: "0 \<le> r * real n" using assms by simp
  have b: "r * real n < real n" using assms by simp
  from a have c: "0 \<le> \<lfloor>r * real n\<rfloor>" by simp
  from b have d: "\<lfloor>r * real n\<rfloor> < int n" by (simp add: floor_less_iff)
  from c d have "nat \<lfloor>r * real n\<rfloor> < n" by linarith
  moreover from c have "of_int \<lfloor>r * real n\<rfloor> = real (nat \<lfloor>r * real n\<rfloor>)" by simp
  ultimately show ?thesis by blast
qed

lemma js_index_0: "xs \<noteq> [] \<Longrightarrow> js_index xs (Fin 0) = Some (xs ! 0)"
  by simp

lemma js_index_nat: "k < length xs \<Longrightarrow> js_index xs (Fin (real k)) = Some (xs ! k)"
  by simp

lemma index_below_nat: "index_below n v \<longleftrightarrow> (\<exists>k<n. v = Fin (real k))"
proof (cases v)
  case (Fin i)
  show ?thesis
  proof
    assume a: "index_below n v"
    then have z: "0 \<le> \<lfloor>i\<rfloor>" using Fin by simp
    from a Fin have e: "of_int \<lfloor>i\<rfloor> = i" by (simp del: of_int_floor_cancel)
    from z have "real (nat \<lfloor>i\<rfloor>) = of_int \<lfloor>i\<rfloor>" by simp
    with e have "i = real (nat \<lfloor>i\<rfloor>)" by (simp only:)
    moreover have "nat \<lfloor>i\<rfloor> < n"
      using a Fin by (simp add: floor_less_iff nat_less_iff)
    ultimately show "\<exists>k<n. v = Fin (real k)" using Fin by blast
  next
    assume "\<exists>k<n. v = Fin (real k)"
    then obtain k where k: "k < n" "v = Fin (real k)" by blast
    have "real_of_int \<lfloor>real k\<rfloor> = real k" by (simp del: of_int_floor_cancel)
    with k show "index_below n v" by (simp del: of_int_floor_cancel)
  qed
qed auto

section \<open>Effects of loadMedia and of the simple methods\<close>

lemma state_of_updatePlaylist [simp]: "state_of (updatePlaylist s) = rendered s"
  by (simp add: updatePlaylist_def)

lemma returned_updatePlaylist [simp]: "returned (updatePlaylist s) = rows_render (playlist s)"
  by (simp add: updatePlaylist_def)

lemma shown_entries_simps [simp]:
  "shown_entries NoList = 0" "shown_entries SavedNotice = 0"
  "shown_entries (Listing bs a) = length bs"
  by (simp_all add: shown_entries_def)

lemma length_rows: "length (takeWhile P (map f xs)) \<le> length xs"
  using length_takeWhile_le [of P "map f xs"] by simp

lemma state_of_and_then_any:
  "state_of (and_then out k) = (if returned out then state_of (k (state_of out)) else state_of out)"
  by (cases out) simp_all

lemma returned_and_then:
  "returned (and_then out k) \<longleftrightarrow> returned out \<and> returned (k (state_of out))"
  by (cases out) simp_all

lemma rendered_frame:
  "playlist (rendered s) = playlist s" "currentIndex (rendered s) = currentIndex s"
  "isPlaying (rendered s) = isPlaying s" "thumbDragging (rendered s) = thumbDragging s"
  "currentMedia (rendered s) = currentMedia s" "saved (rendered s) = saved s"
  by (simp_all add: rendered_def)

lemma rendered_twice: "rendered (rendered s) = rendered s"
  by (simp add: rendered_def)

lemma is_media_loadable: "is_media f \<Longrightarrow> loadable (Some f)"
  by (auto simp: is_media_def prefix_def major_type_def tag_of_def loadable_def)

lemma loadMedia_frame:
  "playlist (state_of (loadMedia s fo)) = playlist s"
  "currentIndex (state_of (loadMedia s fo)) = currentIndex s"
  "isPlaying (state_of (loadMedia s fo)) = isPlaying s"
  "thumbDragging (state_of (loadMedia s fo)) = thumbDragging s"
  by (simp_all add: loadMedia_def clearError_def showError_def rendered_def Let_def
      split: option.splits)

section \<open>The index invariant\<close>

lemma index_ok_nat:
  "index_ok s \<longleftrightarrow> (\<exists>k<length (playlist s). currentIndex s = Fin (real k))"
  by (simp add: index_ok_def index_below_nat)

lemma index_ok_cong:
  "playlist t = playlist s \<Longrightarrow> currentIndex t = currentIndex s \<Longrightarrow> index_ok t = index_ok s"
  by (simp add: index_ok_def)

lemma listing_ok_cong:
  "playlist t = playlist s \<Longrightarrow> playlistEl t = playlistEl s \<Longrightarrow> listing_ok t = listing_ok s"
  by (simp add: listing_ok_def)

lemma session_inv_cong:
  assumes "playlist t = playlist s" "currentIndex t = currentIndex s"
    "playlistEl t = playlistEl s" "currentMedia t = None \<longleftrightarrow> currentMedia s = None"
  shows "session_inv t = session_inv s"
  using assms index_ok_cong [of t s] listing_ok_cong [of t s] by (simp add: session_inv_def)

lemma listing_ok_rendered: "listing_ok (rendered s)"
  by (simp add: listing_ok_def rendered_def length_rows)

lemma loadMedia_listing:
  "listing_ok s \<Longrightarrow> listing_ok (state_of (loadMedia s fo))"
  by (simp add: loadMedia_def clearError_def showError_def rendered_def Let_def
      listing_ok_def length_rows split: option.splits)

lemma loadMedia_index_ok:
  "index_ok (state_of (loadMedia s fo)) = index_ok s"
  by (rule index_ok_cong) (simp_all add: loadMedia_frame)

lemma loadMedia_session_inv:
  assumes "playlist s \<noteq> []" "index_ok s" "listing_ok s"
  shows "session_inv (state_of (loadMedia s fo))"
  using assms loadMedia_listing [of s fo]
  by (simp add: session_inv_def loadMedia_frame loadMedia_index_ok)

lemma saveState_session_inv: "session_inv (saveState s) = session_inv s"
  by (rule session_inv_cong) (simp_all add: saveState_def)

lemma rendered_session_inv:
  assumes "session_inv s" shows "session_inv (rendered s)"
proof -
  have "index_ok (rendered s) = index_ok s"
    by (rule index_ok_cong) (simp_all add: rendered_def)
  moreover have "playlist (rendered s) = playlist s"
    "currentMedia (rendered s) = currentMedia s"
    by (simp_all add: rendered_def)
  ultimately show ?thesis using assms listing_ok_rendered [of s]
    by (simp add: session_inv_def)
qed

lemma state_of_and_then:
  "state_of (and_then out (\<lambda>s2. Returned (f s2))) =
     (if returned out then f (state_of out) else state_of out)"
  by (cases out) simp_all

lemma showError_session_inv: "session_inv (showError s m) = session_inv s"
  by (rule session_inv_cong) (simp_all add: showError_def clearError_def)

lemma handleFiles_unfold:
  "filter is_media files \<noteq> [] \<Longrightarrow>
   handleFiles s files =
     and_then
       (if currentMedia s = None
        then loadMedia (s\<lparr>playlist := playlist s @ filter is_media files, currentIndex := Fin 0\<rparr>)
               (js_index (playlist s @ filter is_media files) (Fin 0))
        else Returned (s\<lparr>playlist := playlist s @ filter is_media files\<rparr>))
       (\<lambda>s2. and_then (updatePlaylist s2) (\<lambda>s3. Returned (saveState s3)))"
  by (simp add: handleFiles_def Let_def)

lemma render_and_save_session_inv:
  assumes "session_inv x"
  shows "session_inv (state_of (and_then (updatePlaylist x) (\<lambda>s3. Returned (saveState s3))))"
  using assms
  by (simp add: state_of_and_then_any saveState_session_inv rendered_session_inv)

lemma handleFiles_session_inv:
  assumes "session_inv s"
  shows "session_inv (state_of (handleFiles s files))"
proof (cases "filter is_media files = []")
  case True
  then show ?thesis using assms
    by (simp add: handleFiles_def showError_session_inv)
next
  case False
  let ?s1 = "s\<lparr>playlist := playlist s @ filter is_media files\<rparr>"
  let ?k = "\<lambda>s2. and_then (updatePlaylist s2) (\<lambda>s3. Returned (saveState s3))"
  have l1: "listing_ok ?s1" using assms
    by (simp add: session_inv_def listing_ok_def)
  show ?thesis
  proof (cases "currentMedia s = None")
    case True
    let ?s0 = "s\<lparr>playlist := playlist s @ filter is_media files, currentIndex := Fin 0\<rparr>"
    let ?out = "loadMedia ?s0 (js_index (playlist s @ filter is_media files) (Fin 0))"
    have l0: "listing_ok ?s0"
      using l1 by (simp add: listing_ok_def)
    have i0: "index_ok ?s0" using False by (simp add: index_ok_nat)
    have p0: "playlist ?s0 \<noteq> []" using False by simp
    have inv: "session_inv (state_of ?out)"
      using p0 i0 l0 by (rule loadMedia_session_inv)
    have h: "handleFiles s files = and_then ?out ?k"
      by (simp add: handleFiles_unfold [OF False] True del: js_index.simps)
    show ?thesis
    proof (cases "returned ?out")
      case True
      then have "state_of (handleFiles s files) = state_of (?k (state_of ?out))"
        unfolding h by (cases ?out) simp_all
      then show ?thesis using render_and_save_session_inv [OF inv] by (simp only:)
    next
      case False
      then have "state_of (handleFiles s files) = state_of ?out"
        unfolding h by (cases ?out) simp_all
      then show ?thesis using inv by (simp only:)
    qed
  next
    case media: False
    then have "playlist s \<noteq> []" "index_ok s" using assms by (auto simp: session_inv_def)
    then obtain k where "k < length (playlist s)" "currentIndex s = Fin (real k)"
      by (auto simp: index_ok_nat)
    then have "index_ok ?s1" by (auto simp: index_ok_nat)
    then have "session_inv ?s1" using l1 media False
      by (simp add: session_inv_def)
    then have "session_inv (state_of (?k ?s1))"
      by (rule render_and_save_session_inv)
    moreover have "handleFiles s files = ?k ?s1"
      by (simp add: handleFiles_unfold [OF False] media)
    ultimately show ?thesis by simp
  qed
qed

lemma load_and_save_session_inv:
  assumes "playlist s \<noteq> []" "index_ok s" "listing_ok s"
  shows "session_inv (state_of (and_then (loadMedia s fo) (\<lambda>s2. Returned (saveState s2))))"
  using loadMedia_session_inv [OF assms, of fo]
  by (simp add: state_of_and_then saveState_session_inv)

lemma set_index_session_inv:
  assumes "session_inv s" "playlist s \<noteq> []" "k < length (playlist s)"
  shows "session_inv
     (state_of (and_then (loadMedia (s\<lparr>currentIndex := Fin (real k)\<rparr>) fo)
        (\<lambda>s2. Returned (saveState s2))))"
proof (rule load_and_save_session_inv)
  show "playlist (s\<lparr>currentIndex := Fin (real k)\<rparr>) \<noteq> []" using assms by simp
  show "index_ok (s\<lparr>currentIndex := Fin (real k)\<rparr>)" using assms by (auto simp: index_ok_nat)
  show "listing_ok (s\<lparr>currentIndex := Fin (real k)\<rparr>)"
    using assms by (simp add: session_inv_def listing_ok_def)
qed

lemma playNext_index:
  assumes "playlist s \<noteq> [] \<longrightarrow> index_ok s" "playlist s \<noteq> []" "0 \<le> r" "r < 1"
  shows "\<exists>k<length (playlist s).
     (if shuffle s then Fin (of_int \<lfloor>r * real (length (playlist s))\<rfloor>)
      else js_mod (js_add (currentIndex s) (Fin 1)) (Fin (real (length (playlist s))))) =
     Fin (real k)"
proof (cases "shuffle s")
  case True
  then show ?thesis using random_index [of r "length (playlist s)"] assms by simp
next
  case False
  from assms obtain k where k: "k < length (playlist s)" "currentIndex s = Fin (real k)"
    by (auto simp: index_ok_nat)
  have n: "0 < length (playlist s)" using assms(2) by simp
  have "js_mod (js_add (currentIndex s) (Fin 1)) (Fin (real (length (playlist s))))
      = Fin (real (Suc k mod length (playlist s)))"
    unfolding k(2) by (rule js_mod_next [OF n])
  moreover have "Suc k mod length (playlist s) < length (playlist s)"
    using assms(2) by (intro mod_less_divisor) simp
  ultimately show ?thesis using False by auto
qed

lemma playPrevious_index:
  assumes "playlist s \<noteq> [] \<longrightarrow> index_ok s" "playlist s \<noteq> []" "0 \<le> r" "r < 1"
  shows "\<exists>k<length (playlist s).
     (if shuffle s then Fin (of_int \<lfloor>r * real (length (playlist s))\<rfloor>)
      else js_mod (js_add (js_sub (currentIndex s) (Fin 1)) (Fin (real (length (playlist s)))))
             (Fin (real (length (playlist s))))) = Fin (real k)"
proof (cases "shuffle s")
  case True
  then show ?thesis using random_index [of r "length (playlist s)"] assms by simp
next
  case False
  from assms obtain k where k: "k < length (playlist s)" "currentIndex s = Fin (real k)"
    by (auto simp: index_ok_nat)
  have n: "0 < length (playlist s)" using assms(2) by simp
  have "js_mod (js_add (js_sub (currentIndex s) (Fin 1)) (Fin (real (length (playlist s)))))
          (Fin (real (length (playlist s))))
      = Fin (real ((k + length (playlist s) - 1) mod length (playlist s)))"
    unfolding k(2) by (rule js_mod_prev [OF n])
  moreover have "(k + length (playlist s) - 1) mod length (playlist s) < length (playlist s)"
    using assms(2) by (intro mod_less_divisor) simp
  ultimately show ?thesis using False by auto
qed

lemma playNext_unfold:
  "playlist s \<noteq> [] \<Longrightarrow>
   playNext r s =
     (let i = (if shuffle s then Fin (of_int \<lfloor>r * real (length (playlist s))\<rfloor>)
               else js_mod (js_add (currentIndex s) (Fin 1)) (Fin (real (length (playlist s)))))
      in and_then (loadMedia (s\<lparr>currentIndex := i\<rparr>) (js_index (playlist s) i))
           (\<lambda>s2. Returned (saveState s2)))"
  by (simp add: playNext_def Let_def)

lemma playPrevious_unfold:
  "playlist s \<noteq> [] \<Longrightarrow>
   playPrevious r s =
     (let i = (if shuffle s then Fin (of_int \<lfloor>r * real (length (playlist s))\<rfloor>)
               else js_mod (js_add (js_sub (currentIndex s) (Fin 1))
                              (Fin (real (length (playlist s)))))
                      (Fin (real (length (playlist s)))))
      in and_then (loadMedia (s\<lparr>currentIndex := i\<rparr>) (js_index (playlist s) i))
           (\<lambda>s2. Returned (saveState s2)))"
  by (simp add: playPrevious_def Let_def)

lemma playNext_session_inv:
  assumes "session_inv s" "0 \<le> r" "r < 1"
  shows "session_inv (state_of (playNext r s))"
proof (cases "playlist s = []")
  case True
  then show ?thesis using assms by (simp add: playNext_def)
next
  case False
  have i: "playlist s \<noteq> [] \<longrightarrow> index_ok s" using assms(1) by (simp add: session_inv_def)
  from playNext_index [OF i False assms(2,3)] obtain k where
    k: "k < length (playlist s)"
      "(if shuffle s then Fin (of_int \<lfloor>r * real (length (playlist s))\<rfloor>)
        else js_mod (js_add (currentIndex s) (Fin 1)) (Fin (real (length (playlist s))))) =
       Fin (real k)"
    by blast
  show ?thesis
    using set_index_session_inv [OF assms(1) False k(1)]
    by (simp only: playNext_unfold [OF False] Let_def k(2))
qed

lemma playPrevious_session_inv:
  assumes "session_inv s" "0 \<le> r" "r < 1"
  shows "session_inv (state_of (playPrevious r s))"
proof (cases "playlist s = []")
  case True
  then show ?thesis using assms by (simp add: playPrevious_def)
next
  case False
  have i: "playlist s \<noteq> [] \<longrightarrow> index_ok s" using assms(1) by (simp add: session_inv_def)
  from playPrevious_index [OF i False assms(2,3)] obtain k where
    k: "k < length (playlist s)"
      "(if shuffle s then Fin (of_int \<lfloor>r * real (length (playlist s))\<rfloor>)
        else js_mod (js_add (js_sub (currentIndex s) (Fin 1)) (Fin (real (length (playlist s)))))
               (Fin (real (length (playlist s))))) = Fin (real k)"
    by blast
  show ?thesis
    using set_index_session_inv [OF assms(1) False k(1)]
    by (simp only: playPrevious_unfold [OF False] Let_def k(2))
qed

lemma item_click_session_inv:
  assumes "session_inv s" "row < shown_entries (playlistEl s)"
  shows "session_inv (state_of (item_click (Fin (real row)) s))"
proof -
  from assms have i: "row < length (playlist s)" by (simp add: session_inv_def listing_ok_def)
  then have ne: "playlist s \<noteq> []" by auto
  show ?thesis
    using set_index_session_inv [OF assms(1) ne i]
    by (simp add: item_click_def Let_def del: js_index.simps)
qed

lemma media_update_session_inv:
  "session_inv (s\<lparr>currentMedia := Some el\<rparr>) = session_inv s" if "currentMedia s \<noteq> None"
  by (rule session_inv_cong) (use that in simp_all)

lemma playable_Some: "playable s = Some el \<Longrightarrow> currentMedia s = Some el \<and> tagName el \<noteq> IMG"
  by (simp add: playable_def split: option.splits if_splits)

lemma onMediaEnded_session_inv:
  assumes "session_inv s" "0 \<le> r" "r < 1"
  shows "session_inv (state_of (onMediaEnded r s))"
proof (cases "loop s")
  case False
  then show ?thesis using playNext_session_inv [OF assms] by (simp add: onMediaEnded_def)
next
  case True
  show ?thesis
  proof (cases "currentMedia s")
    case None
    then show ?thesis using True assms by (simp add: onMediaEnded_def)
  next
    case (Some el)
    then show ?thesis using True assms(1)
      by (simp add: onMediaEnded_def media_update_session_inv)
  qed
qed

section \<open>Methods that leave playlist, index and URLs alone\<close>

lemma same_session_inv: "same_session t s \<Longrightarrow> session_inv t = session_inv s"
  by (rule session_inv_cong) (simp_all add: same_session_def)

lemma same_session_refl: "same_session s s"
  by (simp add: same_session_def)

lemma togglePlay_same: "same_session (togglePlay s) s"
  by (auto simp: togglePlay_def same_session_def dest!: playable_Some split: option.splits)

lemma toggleMute_same: "same_session (toggleMute s) s"
  by (auto simp: toggleMute_def same_session_def dest!: playable_Some split: option.splits)

lemma setVolume_same: "same_session (setVolume v s) s"
  by (auto simp: setVolume_def same_session_def dest!: playable_Some split: option.splits)

lemma set_width_same: "same_session (set_width s v) s"
  by (cases v) (simp_all add: set_width_def same_session_def)

lemma set_width_media: "currentMedia (set_width s v) = currentMedia s"
  by (cases v) (simp_all add: set_width_def)

lemma updateProgress_same: "same_session (updateProgress s) s"
  by (simp add: updateProgress_def set_width_same same_session_refl split: option.splits)

lemma platform_media_same: "same_session (platform_media f s) s"
  by (auto simp: platform_media_def same_session_def dest!: playable_Some split: option.splits)

lemma same_session_trans: "same_session u t \<Longrightarrow> same_session t s \<Longrightarrow> same_session u s"
  by (simp add: same_session_def)

lemma set_currentTime_same:
  "currentMedia s = Some el \<Longrightarrow> same_session (state_of (set_currentTime s el v)) s"
  by (cases v) (simp_all add: set_currentTime_def same_session_def)

lemma seek_same: "same_session (state_of (seek e s)) s"
proof (cases "playable s")
  case None
  then show ?thesis by (simp add: seek_def same_session_refl)
next
  case (Some el)
  then have m: "currentMedia s = Some el" by (simp add: playable_Some)
  let ?out = "set_currentTime s el (js_mul (clamp01 (pointer_fraction e)) (duration el))"
  have "same_session (state_of ?out) s" using m by (rule set_currentTime_same)
  moreover have "same_session (updateProgress (state_of ?out)) (state_of ?out)"
    by (rule updateProgress_same)
  ultimately show ?thesis using Some
    by (auto simp: seek_def Let_def state_of_and_then intro: same_session_trans)
qed

lemma endThumbDrag_same: "same_session (state_of (endThumbDrag e s)) s"
proof (cases "thumbDragging s \<and> playable s \<noteq> None")
  case False
  then show ?thesis
    by (auto simp: endThumbDrag_def Let_def same_session_def playable_def split: option.splits)
next
  case True
  then obtain el where el: "playable s = Some el" by auto
  then have m: "currentMedia (s\<lparr>thumbDragging := False\<rparr>) = Some el" by (simp add: playable_Some)
  have p: "playable (s\<lparr>thumbDragging := False\<rparr>) = Some el"
    using el by (simp add: playable_def)
  have "same_session (s\<lparr>thumbDragging := False\<rparr>) s" by (simp add: same_session_def)
  then show ?thesis using True p set_currentTime_same [OF m]
    by (auto simp: endThumbDrag_def Let_def intro: same_session_trans)
qed

lemma handleKeyboard_same: "same_session (state_of (handleKeyboard k s)) s"
proof (cases "playable s")
  case None
  then show ?thesis by (simp add: handleKeyboard_def same_session_refl)
next
  case (Some el)
  then have m: "currentMedia s = Some el" by (simp add: playable_Some)
  have v: "same_session (setVolume w (s\<lparr>volumeSlider := w\<rparr>)) s" for w
    using setVolume_same [of w "s\<lparr>volumeSlider := w\<rparr>"] by (simp add: same_session_def)
  show ?thesis using Some
    by (cases k)
      (simp_all add: handleKeyboard_def Let_def togglePlay_same set_currentTime_same [OF m]
        same_session_refl v)
qed

lemma showError_same: "same_session (showError s m) s"
  by (simp add: showError_def clearError_def same_session_def)

lemma play_rejected_same: "same_session (play_rejected s) s"
  by (auto simp: play_rejected_def showError_def clearError_def same_session_def
      split: option.splits)

lemma onThumbMove_same: "same_session (onThumbMove e s) s"
  by (simp add: onThumbMove_def set_width_same same_session_refl split: option.splits)

section \<open>Object URLs\<close>

lemma loadMedia_urls:
  "urlCounter (state_of (loadMedia s fo)) = (if loadable fo then Suc (urlCounter s) else urlCounter s)"
  "objectUrls (state_of (loadMedia s fo)) =
     (if loadable fo then insert (urlCounter s) (objectUrls s) else objectUrls s)"
  "liveUrls (state_of (loadMedia s fo)) =
     (if loadable fo then insert (urlCounter s) (liveUrls s) else liveUrls s)"
  by (auto simp: loadMedia_def loadable_def clearError_def showError_def rendered_def Let_def
      split: option.splits)

lemma loadMedia_returned:
  "returned (loadMedia s fo) \<longleftrightarrow> fo \<noteq> None \<and> (loadable fo \<longrightarrow> rows_render (playlist s))"
  by (auto simp: loadMedia_def loadable_def clearError_def Let_def split: option.splits)

lemma render_and_save_state:
  "state_of (and_then (updatePlaylist x) (\<lambda>s3. Returned (saveState s3))) =
     (if rows_render (playlist x) then saveState (rendered x) else rendered x)"
  by (simp add: state_of_and_then_any)

lemma save_urls:
  "urlCounter (saveState x) = urlCounter x" "objectUrls (saveState x) = objectUrls x"
  "liveUrls (saveState x) = liveUrls x"
  "urlCounter (rendered x) = urlCounter x"
  "objectUrls (rendered x) = objectUrls x"
  "liveUrls (rendered x) = liveUrls x"
  by (simp_all add: saveState_def rendered_def)

lemma and_then_frame:
  assumes "\<And>x. f (state_of (k x)) = f x"
  shows "f (state_of (and_then out k)) = f (state_of out)"
  by (cases out) (simp_all add: assms)

lemma render_and_save_frame:
  "playlist (state_of (and_then (updatePlaylist x) (\<lambda>s3. Returned (saveState s3)))) =
     playlist x"
  "currentIndex (state_of (and_then (updatePlaylist x) (\<lambda>s3. Returned (saveState s3)))) =
     currentIndex x"
  "currentMedia (state_of (and_then (updatePlaylist x) (\<lambda>s3. Returned (saveState s3)))) =
     currentMedia x"
  by (simp_all only: render_and_save_state) (simp_all add: rendered_frame saveState_def)

lemma render_and_save_urls:
  "urlCounter (state_of (and_then (updatePlaylist x) (\<lambda>s3. Returned (saveState s3)))) =
     urlCounter x"
  "objectUrls (state_of (and_then (updatePlaylist x) (\<lambda>s3. Returned (saveState s3)))) =
     objectUrls x"
  "liveUrls (state_of (and_then (updatePlaylist x) (\<lambda>s3. Returned (saveState s3)))) =
     liveUrls x"
  by (simp_all add: render_and_save_state save_urls)

lemma load_then_urls:
  assumes "\<And>x. urlCounter (state_of (k x)) = urlCounter x"
    "\<And>x. objectUrls (state_of (k x)) = objectUrls x"
    "\<And>x. liveUrls (state_of (k x)) = liveUrls x"
  shows "urlCounter (state_of (and_then (loadMedia s fo) k)) =
           (if loadable fo then Suc (urlCounter s) else urlCounter s)"
    "objectUrls (state_of (and_then (loadMedia s fo) k)) =
           (if loadable fo then insert (urlCounter s) (objectUrls s) else objectUrls s)"
    "liveUrls (state_of (and_then (loadMedia s fo) k)) =
           (if loadable fo then insert (urlCounter s) (liveUrls s) else liveUrls s)"
  by (simp_all add: state_of_and_then_any assms loadMedia_urls)

lemma same_session_urls_step: "same_session t s \<Longrightarrow> urls_step s t"
  by (simp add: same_session_def urls_step_def)

lemma load_then_urls_step:
  assumes "\<And>x. urlCounter (state_of (k x)) = urlCounter x"
    "\<And>x. objectUrls (state_of (k x)) = objectUrls x"
    "\<And>x. liveUrls (state_of (k x)) = liveUrls x"
    "urlCounter s1 = urlCounter s" "objectUrls s1 = objectUrls s" "liveUrls s1 = liveUrls s"
  shows "urls_step s (state_of (and_then (loadMedia s1 fo) k))"
  unfolding urls_step_def load_then_urls [of k, OF assms(1-3)] using assms(4-6) by simp

lemma handleFiles_urls_step: "urls_step s (state_of (handleFiles s files))"
proof (cases "filter is_media files = []")
  case True
  then show ?thesis
    by (simp add: handleFiles_def same_session_urls_step showError_same)
next
  case False
  let ?k = "\<lambda>s2. and_then (updatePlaylist s2) (\<lambda>s3. Returned (saveState s3))"
  show ?thesis
  proof (cases "currentMedia s = None")
    case True
    have "urls_step s (state_of (and_then
        (loadMedia (s\<lparr>playlist := playlist s @ filter is_media files, currentIndex := Fin 0\<rparr>)
           (js_index (playlist s @ filter is_media files) (Fin 0))) ?k))"
      by (rule load_then_urls_step) (simp_all only: render_and_save_urls, simp_all)
    then show ?thesis unfolding handleFiles_unfold [OF False] using True
      by (simp del: js_index.simps)
  next
    case media: False
    have "urls_step s (state_of (?k (s\<lparr>playlist := playlist s @ filter is_media files\<rparr>)))"
      unfolding urls_step_def by (simp only: render_and_save_urls) simp
    then show ?thesis unfolding handleFiles_unfold [OF False] by (simp add: media)
  qed
qed

lemma playNext_urls_step: "urls_step s (state_of (playNext r s))"
proof (cases "playlist s = []")
  case True
  then show ?thesis by (simp add: playNext_def urls_step_def)
next
  case False
  show ?thesis unfolding playNext_unfold [OF False] Let_def
    by (rule load_then_urls_step) (simp_all add: save_urls)
qed

lemma playPrevious_urls_step: "urls_step s (state_of (playPrevious r s))"
proof (cases "playlist s = []")
  case True
  then show ?thesis by (simp add: playPrevious_def urls_step_def)
next
  case False
  show ?thesis unfolding playPrevious_unfold [OF False] Let_def
    by (rule load_then_urls_step) (simp_all add: save_urls)
qed

lemma item_click_urls_step: "urls_step s (state_of (item_click i s))"
  unfolding item_click_def Let_def
  by (rule load_then_urls_step) (simp_all add: save_urls)

lemma onMediaEnded_urls_step: "urls_step s (state_of (onMediaEnded r s))"
proof (cases "loop s")
  case True
  then show ?thesis by (simp add: onMediaEnded_def urls_step_def split: option.splits)
next
  case False
  then show ?thesis by (simp add: onMediaEnded_def playNext_urls_step)
qed

lemma fire_same_session:
  assumes "\<forall>files. ev \<noteq> FilesChosen files" "\<forall>r. ev \<noteq> PrevClick r" "\<forall>r. ev \<noteq> NextClick r"
    "\<forall>row i. ev \<noteq> ItemClick row i" "\<forall>r. ev \<noteq> Ended r" "ev \<noteq> BeforeUnload"
  shows "same_session (state_of (fire ev s)) s"
proof (cases ev)
  case (VolumeInput v)
  have "same_session (s\<lparr>volumeSlider := v\<rparr>) s" by (simp add: same_session_def)
  then show ?thesis using VolumeInput setVolume_same [of v "s\<lparr>volumeSlider := v\<rparr>"]
    by (auto intro: same_session_trans)
next
  case (TimeUpdate t)
  then show ?thesis
    using updateProgress_same [of "platform_media (\<lambda>el. el\<lparr>currentTime := t\<rparr>) s"]
      platform_media_same [of "\<lambda>el. el\<lparr>currentTime := t\<rparr>" s]
    by (auto intro: same_session_trans)
qed (use assms in \<open>simp_all add: togglePlay_same toggleMute_same seek_same same_session_refl
      endThumbDrag_same handleKeyboard_same platform_media_same play_rejected_same
      onThumbMove_same handleMediaError_def showError_same\<close>,
    simp_all add: same_session_def toggleLoop_def toggleShuffle_def startThumbDrag_def
      clearError_def)

section \<open>Every event\<close>

lemma event_kinds:
  obtains (load) "(\<exists>files. ev = FilesChosen files) \<or> (\<exists>r. ev = PrevClick r) \<or>
      (\<exists>r. ev = NextClick r) \<or> (\<exists>row i. ev = ItemClick row i) \<or> (\<exists>r. ev = Ended r)"
  | (unload) "ev = BeforeUnload"
  | (other) "\<forall>files. ev \<noteq> FilesChosen files" "\<forall>r. ev \<noteq> PrevClick r" "\<forall>r. ev \<noteq> NextClick r"
      "\<forall>row i. ev \<noteq> ItemClick row i" "\<forall>r. ev \<noteq> Ended r" "ev \<noteq> BeforeUnload"
  by (cases ev) simp_all

lemma fire_urls_step:
  assumes "ev \<noteq> BeforeUnload"
  shows "urls_step s (state_of (fire ev s))"
proof (cases ev rule: event_kinds)
  case load
  then show ?thesis
    by (auto simp: handleFiles_urls_step playPrevious_urls_step playNext_urls_step
        item_click_urls_step onMediaEnded_urls_step)
next
  case unload
  then show ?thesis using assms by simp
next
  case other
  then show ?thesis by (intro same_session_urls_step fire_same_session)
qed

lemma fire_session_inv:
  assumes "session_inv s" "possible s ev" "plain ev"
  shows "session_inv (state_of (fire ev s))"
proof (cases ev rule: event_kinds)
  case load
  then show ?thesis using assms
    by (auto simp: handleFiles_session_inv playPrevious_session_inv playNext_session_inv
        item_click_session_inv onMediaEnded_session_inv)
next
  case unload
  have "session_inv (cleanupUrls s) = session_inv s"
    by (rule session_inv_cong) (simp_all add: cleanupUrls_def)
  then show ?thesis using unload assms by simp
next
  case other
  then have "same_session (state_of (fire ev s)) s" by (rule fire_same_session)
  then show ?thesis using assms(1) by (simp add: same_session_inv)
qed

lemma constructor_session_inv: "session_inv (constructor st slider)"
  by (simp add: constructor_def restoreState_def initial_fields_def session_inv_def
      listing_ok_def Let_def)

lemma plain_session_inv: "plain_session s \<Longrightarrow> session_inv s"
  by (induction rule: plain_session.induct)
    (simp_all add: constructor_session_inv fire_session_inv)

lemma plain_session_reachable: "plain_session s \<Longrightarrow> reachable s"
  by (induction rule: plain_session.induct) (simp_all add: reachable.start reachable.after)

lemma urls_step_fresh: "urls_step s t \<Longrightarrow> urls_fresh s \<Longrightarrow> urls_fresh t"
  by (auto simp: urls_step_def urls_fresh_def less_Suc_eq)

lemma fire_urls_fresh: "urls_fresh s \<Longrightarrow> urls_fresh (state_of (fire ev s))"
proof (cases "ev = BeforeUnload")
  case True
  then show ?thesis by (simp add: cleanupUrls_def urls_fresh_def)
next
  case False
  assume "urls_fresh s"
  then show ?thesis using fire_urls_step [OF False] urls_step_fresh by blast
qed

lemma constructor_urls_fresh: "urls_fresh (constructor st slider)"
  by (simp add: constructor_def restoreState_def initial_fields_def urls_fresh_def Let_def)

lemma reachable_urls_fresh: "reachable s \<Longrightarrow> urls_fresh s"
  by (induction rule: reachable.induct) (simp_all add: constructor_urls_fresh fire_urls_fresh)

section \<open>The example sessions, evaluated\<close>

lemmas example_defs = song1_def song2_def memo_def fresh_def restored3_def loaded2_def timed_def
  trick_def tricked_def

lemmas method_defs [simp del] = clearError_def showError_def rendered_def updatePlaylist_def
  rows_render_def saveState_def
  is_media_def major_type_def new_element_def tag_of_def loadMedia_def handleFiles_def
  playable_def togglePlay_def play_rejected_def playPrevious_def playNext_def onMediaEnded_def
  restoreState_def constructor_def initial_fields_def js_rem_def js_trunc_def js_sub_def
  platform_media_def

lemma loaded2_eq:
  "loaded2 =
    \<lparr>currentMedia = Some \<lparr>tagName = AUDIO, src = 0, currentTime = 0, duration = NaN,
         paused = True, muted = False, volume = 1 / 2\<rparr>,
     playlist = [song1, song2], currentIndex = Fin 0, isPlaying = False, loop = False,
     shuffle = False, objectUrls = {0}, thumbDragging = False, errorMsg = None,
     dropZoneHidden = True, playlistEl = Listing [PlayButton, PlayButton] (Fin 0), progressFill = 0,
     volumeSlider = 50, urlCounter = 1, liveUrls = {0},
     saved = Some ([song1, song2], Fin 0)\<rparr>"
  by (simp add: example_defs method_defs Let_def del: of_int_floor_cancel)

lemma reachable_loaded2: "reachable loaded2"
  unfolding loaded2_def fresh_def
  by (rule reachable.after [OF reachable.start])
    (simp add: name_ok_def song1_def song2_def memo_def)

lemma fresh_eq:
  "fresh =
    \<lparr>currentMedia = None, playlist = [], currentIndex = Fin 0, isPlaying = False,
     loop = False, shuffle = False, objectUrls = {}, thumbDragging = False,
     errorMsg = None, dropZoneHidden = False, playlistEl = NoList,
     progressFill = 0, volumeSlider = 50, urlCounter = 0, liveUrls = {},
     saved = None\<rparr>"
  by (simp add: fresh_def constructor_def restoreState_def initial_fields_def Let_def)

lemma timed_eq:
  "timed = loaded2\<lparr>currentMedia := Some \<lparr>tagName = AUDIO, src = 0, currentTime = 0,
         duration = Fin 200, paused = True, muted = False, volume = 1 / 2\<rparr>\<rparr>"
  by (simp add: timed_def loaded2_eq platform_media_def playable_def)

lemma tricked_eq:
  "tricked =
    \<lparr>currentMedia = Some \<lparr>tagName = AUDIO, src = 0, currentTime = 0, duration = NaN,
         paused = True, muted = False, volume = 1 / 2\<rparr>,
     playlist = [trick, song2], currentIndex = Fin 0, isPlaying = False, loop = False,
     shuffle = False, objectUrls = {0}, thumbDragging = False, errorMsg = None,
     dropZoneHidden = True, playlistEl = Listing [OtherButton, PlayButton] (Fin 0), progressFill = 0,
     volumeSlider = 50, urlCounter = 1, liveUrls = {0},
     saved = Some ([trick, song2], Fin 0)\<rparr>"
  by (simp add: example_defs method_defs Let_def del: of_int_floor_cancel)

lemma reachable_tricked: "reachable tricked"
  unfolding tricked_def fresh_def
  by (rule reachable.after [OF reachable.start])
    (simp add: name_ok_def has_markup_def song2_def trick_def)

section \<open>Seeking\<close>

lemma clamp01_cases:
  "clamp01 (Fin x) = Fin (spec_clamp x)" "clamp01 NegInf = Fin 0" "clamp01 PosInf = Fin 1"
  "clamp01 NaN = NaN"
  by (simp_all add: clamp01_def spec_clamp_def min_def max_def)

lemma updateProgress_media: "currentMedia (updateProgress s) = currentMedia s"
  by (simp add: updateProgress_def set_width_media split: option.splits)

lemma seeks_to_clamped:
  assumes "playable s = Some el" "duration el = Fin d" "clamp01 (pointer_fraction e) = Fin c"
  shows "seeks_to e s (c * d)"
proof -
  have p: "playable (s\<lparr>thumbDragging := False\<rparr>) = Some el"
    using assms(1) by (simp add: playable_def)
  have "returned (seek e s)"
    "map_option currentTime (currentMedia (state_of (seek e s))) = Some (c * d)"
    using assms by (simp_all add: seek_def set_currentTime_def updateProgress_media)
  moreover have "thumbDragging s \<longrightarrow>
        returned (endThumbDrag e s) \<and>
        map_option currentTime (currentMedia (state_of (endThumbDrag e s))) = Some (c * d)"
    using assms p by (simp add: endThumbDrag_def set_currentTime_def Let_def)
  ultimately show ?thesis by (simp add: seeks_to_def)
qed

section \<open>Loading and advancing\<close>

lemma loadMedia_src:
  "loadable fo \<Longrightarrow> map_option src (currentMedia (state_of (loadMedia s fo))) = Some (urlCounter s)"
  by (auto simp: loadable_def loadMedia_def clearError_def rendered_def new_element_def
      Let_def split: option.splits)

lemma loadable_returned:
  "loadable fo \<Longrightarrow> returned (loadMedia s fo) \<longleftrightarrow> rows_render (playlist s)"
  by (auto simp: loadable_def loadMedia_returned split: option.splits)

lemma urls_step_live: "urls_step s t \<Longrightarrow> liveUrls s \<subseteq> liveUrls t"
  by (auto simp: urls_step_def)

lemma song2_loadable: "loadable (Some song2)"
  by (rule is_media_loadable) (simp add: is_media_def song2_def)

lemma playNext_frame:
  assumes "playlist s \<noteq> []"
  shows "playlist (state_of (playNext r s)) = playlist s"
    "currentIndex (state_of (playNext r s)) =
       (if shuffle s then Fin (of_int \<lfloor>r * real (length (playlist s))\<rfloor>)
        else js_mod (js_add (currentIndex s) (Fin 1)) (Fin (real (length (playlist s)))))"
  by (simp_all add: playNext_unfold [OF assms] Let_def state_of_and_then loadMedia_frame
      saveState_def)

lemma playPrevious_frame:
  assumes "playlist s \<noteq> []"
  shows "playlist (state_of (playPrevious r s)) = playlist s"
    "currentIndex (state_of (playPrevious r s)) =
       (if shuffle s then Fin (of_int \<lfloor>r * real (length (playlist s))\<rfloor>)
        else js_mod (js_add (js_sub (currentIndex s) (Fin 1)) (Fin (real (length (playlist s)))))
               (Fin (real (length (playlist s)))))"
  by (simp_all add: playPrevious_unfold [OF assms] Let_def state_of_and_then loadMedia_frame
      saveState_def)

text \<open>
  With shuffle, \<open>playNext\<close> and \<open>playPrevious\<close> lead to an index in range, from any state
  with a non-empty playlist.
\<close>

lemma shuffled_index_ok:
  assumes "playlist s \<noteq> []" "shuffle s" "0 \<le> r" "r < 1"
  shows "index_ok (state_of (playNext r s))" "index_ok (state_of (playPrevious r s))"
proof -
  from random_index [OF assms(3,4), of "length (playlist s)"] assms(1)
  obtain k where k: "k < length (playlist s)"
    "of_int \<lfloor>r * real (length (playlist s))\<rfloor> = real k" by auto
  show "index_ok (state_of (playNext r s))"
    unfolding index_ok_nat using k assms(2) by (simp add: playNext_frame [OF assms(1)])
  show "index_ok (state_of (playPrevious r s))"
    unfolding index_ok_nat using k assms(2) by (simp add: playPrevious_frame [OF assms(1)])
qed

text \<open>Without shuffle, they move an index in range by +1 and -1 modulo the length.\<close>

lemma circular_index:
  assumes "\<not> shuffle s" "k < length (playlist s)" "currentIndex s = Fin (real k)"
  shows "currentIndex (state_of (playNext r s)) = Fin (real ((k + 1) mod length (playlist s)))"
    "currentIndex (state_of (playPrevious r s)) =
       Fin (real ((k + length (playlist s) - 1) mod length (playlist s)))"
proof -
  have n: "0 < length (playlist s)" using assms(2) by linarith
  have p: "playlist s \<noteq> []" using assms(2) by auto
  show "currentIndex (state_of (playNext r s)) = Fin (real ((k + 1) mod length (playlist s)))"
    using js_mod_next [OF n, of k] assms(1)
    by (simp add: playNext_frame [OF p] assms(3) del: js_mod.simps js_add.simps)
  show "currentIndex (state_of (playPrevious r s)) =
       Fin (real ((k + length (playlist s) - 1) mod length (playlist s)))"
    using js_mod_prev [OF n, of k] assms(1)
    by (simp add: playPrevious_frame [OF p] assms(3) del: js_mod.simps js_add.simps)
qed

text \<open>
  In a session whose playlist clicks all read their row's index, the index is in range
  whenever the playlist is not empty.
\<close>

lemma plain_session_index_ok: "plain_session s \<Longrightarrow> playlist s \<noteq> [] \<Longrightarrow> index_ok s"
  using plain_session_inv [of s] by (simp add: session_inv_def)

text \<open>The playlist holds only files that passed the filter, in every session.\<close>

lemma playNext_playlist: "playlist (state_of (playNext r s)) = playlist s"
  by (cases "playlist s = []") (simp_all add: playNext_frame, simp add: playNext_def)

lemma playPrevious_playlist: "playlist (state_of (playPrevious r s)) = playlist s"
  by (cases "playlist s = []") (simp_all add: playPrevious_frame, simp add: playPrevious_def)

lemma item_click_playlist: "playlist (state_of (item_click i s)) = playlist s"
  by (simp add: item_click_def Let_def state_of_and_then loadMedia_frame saveState_def)

lemma onMediaEnded_playlist: "playlist (state_of (onMediaEnded r s)) = playlist s"
  by (simp add: onMediaEnded_def playNext_playlist split: option.splits)

lemma handleFiles_playlist:
  "playlist (state_of (handleFiles s files)) =
     (if filter is_media files = [] then playlist s else playlist s @ filter is_media files)"
proof (cases "filter is_media files = []")
  case True
  then show ?thesis by (simp add: handleFiles_def showError_def clearError_def)
next
  case False
  have "playlist (state_of (handleFiles s files)) = playlist s @ filter is_media files"
    unfolding handleFiles_unfold [OF False]
    by (subst and_then_frame [where f = playlist])
      (simp_all add: render_and_save_frame loadMedia_frame del: js_index.simps)
  then show ?thesis using False by simp
qed

lemma fire_playlist_media:
  assumes "list_all is_media (playlist s)"
  shows "list_all is_media (playlist (state_of (fire ev s)))"
proof (cases ev rule: event_kinds)
  case load
  then show ?thesis using assms
    by (auto simp: handleFiles_playlist playNext_playlist playPrevious_playlist
        item_click_playlist onMediaEnded_playlist list_all_iff split: if_splits)
next
  case unload
  then show ?thesis using assms by (simp add: cleanupUrls_def)
next
  case other
  then have "same_session (state_of (fire ev s)) s" by (rule fire_same_session)
  then show ?thesis using assms by (simp add: same_session_def)
qed

lemma reachable_playlist_media: "reachable s \<Longrightarrow> list_all is_media (playlist s)"
proof (induction rule: reachable.induct)
  case (start st slider)
  show ?case by (simp add: constructor_def restoreState_def initial_fields_def Let_def)
next
  case (after s ev)
  then show ?case by (simp add: fire_playlist_media)
qed

section \<open>Claims\<close>

text \<open>
  C1. The claim: after every successful load of an audio, video or image item the playing
  flag is false, whatever it was before. \<open>loadMedia\<close> pauses and removes the previous
  element but never writes \<open>isPlaying\<close>. In the example session the first song is
  started with \<open>togglePlay\<close> and \<open>playNext\<close> then loads the second one: the load
  returns, the index is 1, the new element is paused, and \<open>isPlaying\<close> is still true.
\<close>
theorem switch_keeps_isPlaying:
  "\<not> isPlaying loaded2 \<and> isPlaying (togglePlay loaded2) \<and>
   returned (playNext 0 (togglePlay loaded2)) \<and>
   currentIndex (state_of (playNext 0 (togglePlay loaded2))) = Fin 1 \<and>
   map_option paused (currentMedia (state_of (playNext 0 (togglePlay loaded2)))) = Some True \<and>
   isPlaying (state_of (playNext 0 (togglePlay loaded2)))"
  by (simp add: loaded2_eq method_defs song1_def song2_def Let_def del: of_int_floor_cancel)

text \<open>
  C2. The claim: when the platform rejects the \<open>play()\<close> that \<open>togglePlay\<close> requested,
  an error is shown and the playing flag is false afterwards. \<open>togglePlay\<close> sets
  \<open>isPlaying\<close> at once and the \<open>catch\<close> callback only shows the error: in the example
  session the error is shown, the element is paused, and \<open>isPlaying\<close> is true.
\<close>
theorem play_failure_keeps_isPlaying:
  "\<not> isPlaying loaded2 \<and>
   errorMsg (play_rejected (togglePlay loaded2)) = Some ''Unable to play media (autoplay blocked?)'' \<and>
   map_option paused (currentMedia (play_rejected (togglePlay loaded2))) = Some True \<and>
   isPlaying (play_rejected (togglePlay loaded2))"
  by (simp add: loaded2_eq method_defs)

text \<open>
  C3, as amended. When no file of the batch is an audio, video or image file,
  \<open>handleFiles\<close> shows the error "No supported media files found" and returns, whether
  or not the playlist was empty: the playlist and \<open>currentIndex\<close> are as before.
\<close>
theorem empty_batch_reports_error:
  assumes "filter is_media files = []"
  shows "handleFiles s files = Returned (showError s ''No supported media files found'') \<and>
     playlist (state_of (handleFiles s files)) = playlist s \<and>
     currentIndex (state_of (handleFiles s files)) = currentIndex s \<and>
     errorMsg (state_of (handleFiles s files)) = Some ''No supported media files found''"
  using assms by (simp add: handleFiles_def showError_def clearError_def)

text \<open>C3, witness: a batch of one text file on a fresh session.\<close>

theorem empty_batch_reports_error_witness:
  "filter is_media [memo] = [] \<and>
   playlist (state_of (handleFiles fresh [memo])) = playlist fresh \<and>
   currentIndex (state_of (handleFiles fresh [memo])) = currentIndex fresh \<and>
   errorMsg (state_of (handleFiles fresh [memo])) = Some ''No supported media files found''"
proof -
  have h: "filter is_media [memo] = []" by (simp add: is_media_def memo_def)
  from empty_batch_reports_error [OF h, of fresh] h show ?thesis by blast
qed

text \<open>
  C3, counterexample to the claim as stated (the error is reported if and only if the
  playlist was empty): with two songs in the playlist, a batch of one text file still
  shows the error.
\<close>

theorem empty_batch_error_counterexample:
  "filter is_media [memo] = [] \<and> playlist loaded2 \<noteq> [] \<and> errorMsg loaded2 = None \<and>
   errorMsg (state_of (handleFiles loaded2 [memo])) = Some ''No supported media files found''"
  by (simp add: loaded2_eq handleFiles_def showError_def clearError_def is_media_def memo_def)

text \<open>
  C4, as amended. When some file of the batch is an audio, video or image file, the
  playlist after \<open>handleFiles\<close> is the old one followed by the accepted files in their
  order, so its length grows by their number and the old entries keep their places.
  When an element is loaded already, \<open>currentIndex\<close>, the element and the object URLs
  are unchanged. When there is none, \<open>currentIndex\<close> is set to 0 and \<open>loadMedia\<close> runs on
  \<open>playlist[0]\<close>: with a playlist of accepted files, as in every session, the new
  element of that file's kind, on a new object URL, is the current one. \<open>handleFiles\<close>
  returns exactly when the listing can be built, that is unless the playlist has two
  or more files and a row without a button.
\<close>
theorem handleFiles_appends:
  assumes "filter is_media files \<noteq> []"
  shows "(returned (handleFiles s files) \<longleftrightarrow> rows_render (playlist s @ filter is_media files)) \<and>
     playlist (state_of (handleFiles s files)) = playlist s @ filter is_media files \<and>
     length (playlist (state_of (handleFiles s files))) =
       length (playlist s) + length (filter is_media files) \<and>
     take (length (playlist s)) (playlist (state_of (handleFiles s files))) = playlist s \<and>
     drop (length (playlist s)) (playlist (state_of (handleFiles s files))) = filter is_media files \<and>
     currentIndex (state_of (handleFiles s files)) =
       (if currentMedia s = None then Fin 0 else currentIndex s) \<and>
     (currentMedia s \<noteq> None \<longrightarrow>
        currentMedia (state_of (handleFiles s files)) = currentMedia s \<and>
        urlCounter (state_of (handleFiles s files)) = urlCounter s \<and>
        objectUrls (state_of (handleFiles s files)) = objectUrls s \<and>
        liveUrls (state_of (handleFiles s files)) = liveUrls s) \<and>
     (currentMedia s = None \<longrightarrow>
        currentMedia (state_of (handleFiles s files)) =
          currentMedia (state_of
            (loadMedia (s\<lparr>playlist := playlist s @ filter is_media files, currentIndex := Fin 0\<rparr>)
               (Some ((playlist s @ filter is_media files) ! 0)))) \<and>
        (list_all is_media (playlist s) \<longrightarrow>
           currentMedia (state_of (handleFiles s files)) \<noteq> None \<and>
           currentMedia (state_of (handleFiles s files)) =
             map_option (\<lambda>t. new_element t (urlCounter s) (volumeSlider s))
               (tag_of (major_type (ftype ((playlist s @ filter is_media files) ! 0)))) \<and>
           urlCounter (state_of (handleFiles s files)) = Suc (urlCounter s) \<and>
           objectUrls (state_of (handleFiles s files)) = insert (urlCounter s) (objectUrls s) \<and>
           liveUrls (state_of (handleFiles s files)) = insert (urlCounter s) (liveUrls s))) \<and>
     (reachable s \<longrightarrow> list_all is_media (playlist s))"
proof -
  let ?pl = "playlist s @ filter is_media files"
  let ?s0 = "s\<lparr>playlist := ?pl, currentIndex := Fin 0\<rparr>"
  let ?s1 = "s\<lparr>playlist := ?pl\<rparr>"
  let ?k = "\<lambda>s2. and_then (updatePlaylist s2) (\<lambda>s3. Returned (saveState s3))"
  let ?out = "loadMedia ?s0 (Some (?pl ! 0))"
  have ix: "js_index ?pl (Fin 0) = Some (?pl ! 0)" using assms by (intro js_index_0) simp
  have h0: "currentMedia s = None \<Longrightarrow> handleFiles s files = and_then ?out ?k"
    by (simp add: handleFiles_unfold [OF assms] ix del: js_index.simps)
  have h1: "handleFiles s files = ?k ?s1" if "currentMedia s \<noteq> None"
    by (simp add: handleFiles_unfold [OF assms] that)
  have kr: "returned (?k x) \<longleftrightarrow> rows_render (playlist x)" for x
    by (simp add: returned_and_then)
  have p: "playlist (state_of (handleFiles s files)) = ?pl"
    using assms by (simp add: handleFiles_playlist)
  have ret: "returned (handleFiles s files) \<longleftrightarrow> rows_render ?pl"
  proof (cases "currentMedia s = None")
    case True
    have "returned ?out \<longrightarrow> rows_render ?pl \<or> \<not> loadable (Some (?pl ! 0))"
      by (auto simp: loadMedia_returned)
    moreover have "rows_render ?pl \<longrightarrow> returned ?out" by (simp add: loadMedia_returned)
    ultimately show ?thesis
      unfolding h0 [OF True] returned_and_then kr by (auto simp: loadMedia_frame)
  next
    case False
    show ?thesis unfolding h1 [OF False] kr by simp
  qed
  have c: "currentIndex (state_of (handleFiles s files)) =
       (if currentMedia s = None then Fin 0 else currentIndex s)"
  proof (cases "currentMedia s = None")
    case True
    have "currentIndex (state_of (and_then ?out ?k)) = currentIndex (state_of ?out)"
      by (rule and_then_frame) (simp only: render_and_save_frame)
    then show ?thesis using True by (simp add: h0 loadMedia_frame)
  next
    case False
    show ?thesis unfolding h1 [OF False] by (simp add: render_and_save_frame False)
  qed
  have keep: "currentMedia s \<noteq> None \<longrightarrow>
        currentMedia (state_of (handleFiles s files)) = currentMedia s \<and>
        urlCounter (state_of (handleFiles s files)) = urlCounter s \<and>
        objectUrls (state_of (handleFiles s files)) = objectUrls s \<and>
        liveUrls (state_of (handleFiles s files)) = liveUrls s"
  proof
    assume m: "currentMedia s \<noteq> None"
    show "currentMedia (state_of (handleFiles s files)) = currentMedia s \<and>
        urlCounter (state_of (handleFiles s files)) = urlCounter s \<and>
        objectUrls (state_of (handleFiles s files)) = objectUrls s \<and>
        liveUrls (state_of (handleFiles s files)) = liveUrls s"
      unfolding h1 [OF m] by (simp only: render_and_save_frame render_and_save_urls) simp
  qed
  have load: "currentMedia s = None \<longrightarrow>
        currentMedia (state_of (handleFiles s files)) = currentMedia (state_of ?out) \<and>
        (list_all is_media (playlist s) \<longrightarrow>
           currentMedia (state_of (handleFiles s files)) \<noteq> None \<and>
           currentMedia (state_of (handleFiles s files)) =
             map_option (\<lambda>t. new_element t (urlCounter s) (volumeSlider s))
               (tag_of (major_type (ftype (?pl ! 0)))) \<and>
           urlCounter (state_of (handleFiles s files)) = Suc (urlCounter s) \<and>
           objectUrls (state_of (handleFiles s files)) = insert (urlCounter s) (objectUrls s) \<and>
           liveUrls (state_of (handleFiles s files)) = insert (urlCounter s) (liveUrls s))"
  proof
    assume n: "currentMedia s = None"
    have e: "currentMedia (state_of (handleFiles s files)) = currentMedia (state_of ?out)"
      unfolding h0 [OF n] by (rule and_then_frame) (simp only: render_and_save_frame)
    have u: "urlCounter (state_of (handleFiles s files)) = urlCounter (state_of ?out)"
      "objectUrls (state_of (handleFiles s files)) = objectUrls (state_of ?out)"
      "liveUrls (state_of (handleFiles s files)) = liveUrls (state_of ?out)"
      unfolding h0 [OF n] by (rule and_then_frame, simp only: render_and_save_urls)+
    have m: "list_all is_media (playlist s) \<longrightarrow>
           currentMedia (state_of (handleFiles s files)) \<noteq> None \<and>
           currentMedia (state_of (handleFiles s files)) =
             map_option (\<lambda>t. new_element t (urlCounter s) (volumeSlider s))
               (tag_of (major_type (ftype (?pl ! 0)))) \<and>
           urlCounter (state_of (handleFiles s files)) = Suc (urlCounter s) \<and>
           objectUrls (state_of (handleFiles s files)) = insert (urlCounter s) (objectUrls s) \<and>
           liveUrls (state_of (handleFiles s files)) = insert (urlCounter s) (liveUrls s)"
    proof
      assume a: "list_all is_media (playlist s)"
      then have "list_all is_media ?pl" by (auto simp: list_all_iff)
      moreover have "0 < length ?pl" using assms by simp
      ultimately have "is_media (?pl ! 0)" unfolding list_all_length by blast
      then have l: "loadable (Some (?pl ! 0))" by (rule is_media_loadable)
      then obtain t where t: "tag_of (major_type (ftype (?pl ! 0))) = Some t"
        by (auto simp: loadable_def)
      have "currentMedia (state_of ?out) =
          Some (new_element t (urlCounter s) (volumeSlider s))"
        using t by (simp add: loadMedia_def clearError_def rendered_def Let_def)
      then have "currentMedia (state_of (handleFiles s files)) =
          Some (new_element t (urlCounter s) (volumeSlider s))"
        by (simp only: e)
      moreover have "urlCounter (state_of (handleFiles s files)) = Suc (urlCounter s)"
        "objectUrls (state_of (handleFiles s files)) = insert (urlCounter s) (objectUrls s)"
        "liveUrls (state_of (handleFiles s files)) = insert (urlCounter s) (liveUrls s)"
        using l by (simp_all only: u loadMedia_urls) simp_all
      ultimately show "currentMedia (state_of (handleFiles s files)) \<noteq> None \<and>
           currentMedia (state_of (handleFiles s files)) =
             map_option (\<lambda>t. new_element t (urlCounter s) (volumeSlider s))
               (tag_of (major_type (ftype (?pl ! 0)))) \<and>
           urlCounter (state_of (handleFiles s files)) = Suc (urlCounter s) \<and>
           objectUrls (state_of (handleFiles s files)) = insert (urlCounter s) (objectUrls s) \<and>
           liveUrls (state_of (handleFiles s files)) = insert (urlCounter s) (liveUrls s)"
        by (simp add: t)
    qed
    from e m show "currentMedia (state_of (handleFiles s files)) = currentMedia (state_of ?out) \<and>
        (list_all is_media (playlist s) \<longrightarrow>
           currentMedia (state_of (handleFiles s files)) \<noteq> None \<and>
           currentMedia (state_of (handleFiles s files)) =
             map_option (\<lambda>t. new_element t (urlCounter s) (volumeSlider s))
               (tag_of (major_type (ftype (?pl ! 0)))) \<and>
           urlCounter (state_of (handleFiles s files)) = Suc (urlCounter s) \<and>
           objectUrls (state_of (handleFiles s files)) = insert (urlCounter s) (objectUrls s) \<and>
           liveUrls (state_of (handleFiles s files)) = insert (urlCounter s) (liveUrls s))"
      by (rule conjI)
  qed
  have sess: "reachable s \<longrightarrow> list_all is_media (playlist s)"
    by (simp add: reachable_playlist_media)
  have "length (playlist (state_of (handleFiles s files))) =
       length (playlist s) + length (filter is_media files)"
    "take (length (playlist s)) (playlist (state_of (handleFiles s files))) = playlist s"
    "drop (length (playlist s)) (playlist (state_of (handleFiles s files))) = filter is_media files"
    by (simp_all add: p)
  with ret p c keep load sess show ?thesis by (intro conjI)
qed

text \<open>
  C4, witness: a song and a text file added to the two songs of the example, where an
  element is loaded; and a song added to the session restored with index 3, where
  none is.
\<close>

theorem handleFiles_appends_witness:
  "filter is_media [song2, memo] \<noteq> [] \<and> currentMedia loaded2 \<noteq> None \<and>
   rows_render (playlist loaded2 @ [song2]) \<and> returned (handleFiles loaded2 [song2, memo]) \<and>
   playlist (state_of (handleFiles loaded2 [song2, memo])) = [song1, song2, song2] \<and>
   currentIndex (state_of (handleFiles loaded2 [song2, memo])) = Fin 0 \<and>
   currentMedia (state_of (handleFiles loaded2 [song2, memo])) = currentMedia loaded2 \<and>
   objectUrls (state_of (handleFiles loaded2 [song2, memo])) = {0} \<and>
   filter is_media [song1] \<noteq> [] \<and> currentMedia restored3 = None \<and>
   reachable restored3 \<and> list_all is_media (playlist restored3) \<and>
   currentIndex restored3 = Fin 3 \<and>
   playlist (state_of (handleFiles restored3 [song1])) = [song1] \<and>
   currentIndex (state_of (handleFiles restored3 [song1])) = Fin 0 \<and>
   currentMedia (state_of (handleFiles restored3 [song1])) = Some (new_element AUDIO 0 50) \<and>
   objectUrls (state_of (handleFiles restored3 [song1])) = {0} \<and>
   liveUrls (state_of (handleFiles restored3 [song1])) = {0}"
proof -
  have f: "filter is_media [song2, memo] = [song2]" by (simp add: is_media_def memo_def song2_def)
  then have h: "filter is_media [song2, memo] \<noteq> []" by simp
  have l: "playlist loaded2 = [song1, song2]" "currentIndex loaded2 = Fin 0"
    "currentMedia loaded2 \<noteq> None" "objectUrls loaded2 = {0}"
    by (simp_all add: loaded2_eq)
  have rr: "rows_render (playlist loaded2 @ [song2])"
    by (simp add: l rows_render_def song1_def song2_def)
  from handleFiles_appends [OF h, of loaded2, unfolded f] rr
  have ra: "returned (handleFiles loaded2 [song2, memo])" by blast
  from handleFiles_appends [OF h, of loaded2, unfolded f]
  have a: "playlist (state_of (handleFiles loaded2 [song2, memo])) = [song1, song2, song2]"
    "currentIndex (state_of (handleFiles loaded2 [song2, memo])) = Fin 0"
    "currentMedia (state_of (handleFiles loaded2 [song2, memo])) = currentMedia loaded2"
    "objectUrls (state_of (handleFiles loaded2 [song2, memo])) = {0}"
    by (simp_all add: l)
  have g: "filter is_media [song1] = [song1]" by (simp add: is_media_def song1_def)
  then have k: "filter is_media [song1] \<noteq> []" by simp
  have q: "reachable restored3" unfolding restored3_def by (rule reachable.start)
  have m: "playlist restored3 = []" "currentIndex restored3 = Fin 3"
    "currentMedia restored3 = None" "objectUrls restored3 = {}" "liveUrls restored3 = {}"
    "urlCounter restored3 = 0" "volumeSlider restored3 = 50"
    by (simp_all add: restored3_def constructor_def restoreState_def initial_fields_def Let_def)
  have tg: "tag_of (major_type (ftype song1)) = Some AUDIO"
    by (simp add: song1_def tag_of_def major_type_def)
  note w = handleFiles_appends [OF k, of restored3, unfolded g]
  from w q have la: "list_all is_media (playlist restored3)" by blast
  from w have b1: "playlist (state_of (handleFiles restored3 [song1])) = playlist restored3 @ [song1]"
    "currentIndex (state_of (handleFiles restored3 [song1])) =
       (if currentMedia restored3 = None then Fin 0 else currentIndex restored3)"
    by blast+
  from w m(3) la have b2:
    "currentMedia (state_of (handleFiles restored3 [song1])) =
       map_option (\<lambda>t. new_element t (urlCounter restored3) (volumeSlider restored3))
         (tag_of (major_type (ftype ((playlist restored3 @ [song1]) ! 0))))"
    "objectUrls (state_of (handleFiles restored3 [song1])) =
       insert (urlCounter restored3) (objectUrls restored3)"
    "liveUrls (state_of (handleFiles restored3 [song1])) =
       insert (urlCounter restored3) (liveUrls restored3)"
    by blast+
  from b1 b2 have b: "playlist (state_of (handleFiles restored3 [song1])) = [song1]"
    "currentIndex (state_of (handleFiles restored3 [song1])) = Fin 0"
    "currentMedia (state_of (handleFiles restored3 [song1])) = Some (new_element AUDIO 0 50)"
    "objectUrls (state_of (handleFiles restored3 [song1])) = {0}"
    "liveUrls (state_of (handleFiles restored3 [song1])) = {0}"
    by (simp_all add: m tg)
  from h l(3) rr ra a k m(3) q la m(2) b show ?thesis by (intro conjI)
qed

text \<open>
  C4, counterexample to the claim as stated (\<open>currentIndex\<close> is not altered): the session
  restored with index 3 has no element yet, and the first batch sets the index to 0.
\<close>

theorem handleFiles_index_counterexample:
  "filter is_media [song1] \<noteq> [] \<and> currentIndex restored3 = Fin 3 \<and>
   currentIndex (state_of (handleFiles restored3 [song1])) = Fin 0"
  by (simp add: example_defs method_defs Let_def del: of_int_floor_cancel)

text \<open>
  C5. In every state of a session, a load that creates an element issues exactly one
  object URL, one that \<open>objectUrls\<close> did not hold; it becomes the element's source and
  is added to \<open>objectUrls\<close>, and every URL that was live stays live. No event other than
  the unload revokes a URL. The unload runs \<open>cleanupUrls\<close>, which revokes every URL in
  \<open>objectUrls\<close> and empties the set.
\<close>
theorem load_adds_one_url:
  assumes "reachable s"
  shows "(loadable fo \<longrightarrow>
       (returned (loadMedia s fo) \<longleftrightarrow> rows_render (playlist s)) \<and>
       urlCounter s \<notin> objectUrls s \<and>
       urlCounter (state_of (loadMedia s fo)) = Suc (urlCounter s) \<and>
       map_option src (currentMedia (state_of (loadMedia s fo))) = Some (urlCounter s) \<and>
       objectUrls (state_of (loadMedia s fo)) = insert (urlCounter s) (objectUrls s) \<and>
       liveUrls (state_of (loadMedia s fo)) = insert (urlCounter s) (liveUrls s)) \<and>
     (ev \<noteq> BeforeUnload \<longrightarrow> liveUrls s \<subseteq> liveUrls (state_of (fire ev s))) \<and>
     fire BeforeUnload s = Returned (cleanupUrls s) \<and>
     liveUrls (cleanupUrls s) = liveUrls s - objectUrls s \<and>
     objectUrls (cleanupUrls s) = {}"
proof -
  from assms have "urls_fresh s" by (rule reachable_urls_fresh)
  then have n: "urlCounter s \<notin> objectUrls s" by (auto simp: urls_fresh_def)
  have l: "loadable fo \<longrightarrow>
       (returned (loadMedia s fo) \<longleftrightarrow> rows_render (playlist s)) \<and>
       urlCounter (state_of (loadMedia s fo)) = Suc (urlCounter s) \<and>
       map_option src (currentMedia (state_of (loadMedia s fo))) = Some (urlCounter s) \<and>
       objectUrls (state_of (loadMedia s fo)) = insert (urlCounter s) (objectUrls s) \<and>
       liveUrls (state_of (loadMedia s fo)) = insert (urlCounter s) (liveUrls s)"
    by (simp add: loadable_returned loadMedia_urls loadMedia_src)
  have e: "ev \<noteq> BeforeUnload \<longrightarrow> liveUrls s \<subseteq> liveUrls (state_of (fire ev s))"
    using fire_urls_step [of ev s] urls_step_live by blast
  have c: "fire BeforeUnload s = Returned (cleanupUrls s)"
    "liveUrls (cleanupUrls s) = liveUrls s - objectUrls s" "objectUrls (cleanupUrls s) = {}"
    by (simp_all add: cleanupUrls_def)
  from n l e c show ?thesis by blast
qed

text \<open>
  C5, witness: loading the second song in the example session adds URL 1 to URL 0, the
  next button revokes nothing, and the cleanup leaves no URL.
\<close>

theorem load_adds_one_url_witness:
  "reachable loaded2 \<and> loadable (Some song2) \<and>
   objectUrls loaded2 = {0} \<and> liveUrls loaded2 = {0} \<and>
   rows_render (playlist loaded2) \<and> returned (loadMedia loaded2 (Some song2)) \<and>
   objectUrls (state_of (loadMedia loaded2 (Some song2))) = {0, 1} \<and>
   liveUrls (state_of (loadMedia loaded2 (Some song2))) = {0, 1} \<and>
   liveUrls loaded2 \<subseteq> liveUrls (state_of (fire (NextClick 0) loaded2)) \<and>
   liveUrls (cleanupUrls loaded2) = {} \<and> objectUrls (cleanupUrls loaded2) = {}"
proof -
  have u: "objectUrls loaded2 = {0}" "liveUrls loaded2 = {0}" "urlCounter loaded2 = 1"
    by (simp_all add: loaded2_eq)
  have v: "rows_render (playlist loaded2)"
    by (simp add: loaded2_eq rows_render_def song1_def song2_def)
  note w = load_adds_one_url [OF reachable_loaded2, of "Some song2" "NextClick 0"]
  from w song2_loadable v have a: "returned (loadMedia loaded2 (Some song2))"
    "objectUrls (state_of (loadMedia loaded2 (Some song2))) = {0, 1}"
    "liveUrls (state_of (loadMedia loaded2 (Some song2))) = {0, 1}"
    by (auto simp: u)
  from w have b: "liveUrls loaded2 \<subseteq> liveUrls (state_of (fire (NextClick 0) loaded2))"
    by simp
  from w have c: "liveUrls (cleanupUrls loaded2) = {}" "objectUrls (cleanupUrls loaded2) = {}"
    by (simp_all add: u)
  from reachable_loaded2 song2_loadable u v a b c show ?thesis by blast
qed

text \<open>
  C6. When \<open>ended\<close> fires with \<open>loop\<close> set on an audio or video element,
  \<open>onMediaEnded\<close> returns with the same element at position 0 and playing again;
  index, playlist and the object URLs (issued, kept, live) are as before. With \<open>loop\<close>
  not set, \<open>onMediaEnded\<close> is \<open>playNext\<close>.
\<close>
theorem onMediaEnded_loop_or_next:
  "(loop s \<and> playable s = Some el \<longrightarrow>
      onMediaEnded r s = Returned (s\<lparr>currentMedia := Some (el\<lparr>currentTime := 0, paused := False\<rparr>)\<rparr>) \<and>
      currentIndex (state_of (onMediaEnded r s)) = currentIndex s \<and>
      playlist (state_of (onMediaEnded r s)) = playlist s \<and>
      map_option src (currentMedia (state_of (onMediaEnded r s))) = Some (src el) \<and>
      map_option currentTime (currentMedia (state_of (onMediaEnded r s))) = Some 0 \<and>
      map_option paused (currentMedia (state_of (onMediaEnded r s))) = Some False \<and>
      urlCounter (state_of (onMediaEnded r s)) = urlCounter s \<and>
      objectUrls (state_of (onMediaEnded r s)) = objectUrls s \<and>
      liveUrls (state_of (onMediaEnded r s)) = liveUrls s) \<and>
   (\<not> loop s \<longrightarrow> onMediaEnded r s = playNext r s)"
  by (auto simp: onMediaEnded_def dest!: playable_Some)

text \<open>
  C6, witness: the first song of the example, playing with \<open>loop\<close> set, restarts;
  without \<open>loop\<close> the end of the song is \<open>playNext\<close>.
\<close>

theorem onMediaEnded_loop_or_next_witness:
  "loop (toggleLoop (togglePlay timed)) \<and>
   playable (toggleLoop (togglePlay timed)) \<noteq> None \<and>
   currentIndex (state_of (onMediaEnded 0 (toggleLoop (togglePlay timed)))) = Fin 0 \<and>
   map_option currentTime (currentMedia (state_of (onMediaEnded 0 (toggleLoop (togglePlay timed))))) = Some 0 \<and>
   map_option paused (currentMedia (state_of (onMediaEnded 0 (toggleLoop (togglePlay timed))))) = Some False \<and>
   urlCounter (state_of (onMediaEnded 0 (toggleLoop (togglePlay timed)))) = 1 \<and>
   \<not> loop timed \<and> onMediaEnded 0 timed = playNext 0 timed"
proof -
  let ?el = "\<lparr>tagName = AUDIO, src = 0, currentTime = 0, duration = Fin 200,
         paused = False, muted = False, volume = 1 / 2\<rparr>"
  note t = timed_eq
  have l: "loop (toggleLoop (togglePlay timed))"
    by (simp add: t loaded2_eq toggleLoop_def method_defs)
  have p: "playable (toggleLoop (togglePlay timed)) = Some ?el"
    by (simp add: t loaded2_eq toggleLoop_def method_defs)
  have n: "\<not> loop timed" by (simp add: t loaded2_eq)
  have c: "currentIndex (toggleLoop (togglePlay timed)) = Fin 0"
    "urlCounter (toggleLoop (togglePlay timed)) = 1"
    by (simp_all add: t loaded2_eq toggleLoop_def method_defs)
  from onMediaEnded_loop_or_next [of "toggleLoop (togglePlay timed)" ?el 0] l p
  have "currentIndex (state_of (onMediaEnded 0 (toggleLoop (togglePlay timed)))) = Fin 0"
    "map_option currentTime (currentMedia (state_of (onMediaEnded 0 (toggleLoop (togglePlay timed))))) = Some 0"
   "map_option paused (currentMedia (state_of (onMediaEnded 0 (toggleLoop (togglePlay timed))))) = Some False"
   "urlCounter (state_of (onMediaEnded 0 (toggleLoop (togglePlay timed)))) = 1"
    by (simp_all add: c)
  moreover from onMediaEnded_loop_or_next [of timed ?el 0] n
  have "onMediaEnded 0 timed = playNext 0 timed" by blast
  ultimately show ?thesis using l p n by simp
qed

text \<open>
  C7. The claim: every operation keeps \<open>0 \<le> currentIndex < playlist.length\<close> while the
  playlist is not empty. The handler of a playlist button sets \<open>currentIndex\<close> to the
  number in the button's \<open>data-idx\<close>, and \<open>updatePlaylist\<close> writes the file name into the
  row without escaping it. In the example the first of two audio files is named
  \<open><button data-idx=7>x.mp3\<close>: its row's first button, the one with the handler, is the
  button of the name. The session up to there has the index in range. A click on that
  button sets \<open>currentIndex\<close> to 7 with two files in the playlist; \<open>playlist[7]\<close> is
  \<open>undefined\<close>, so \<open>loadMedia\<close> throws after it has removed the element.
\<close>
theorem injected_button_breaks_index:
  "reachable tricked \<and> playlist tricked = [trick, song2] \<and> index_ok tricked \<and>
   name_ok trick \<and> rows_of (playlistEl tricked) = [OtherButton, PlayButton] \<and>
   possible tricked (ItemClick 0 (Fin 7)) \<and>
   reachable (state_of (fire (ItemClick 0 (Fin 7)) tricked)) \<and>
   \<not> returned (fire (ItemClick 0 (Fin 7)) tricked) \<and>
   playlist (state_of (fire (ItemClick 0 (Fin 7)) tricked)) = [trick, song2] \<and>
   currentIndex (state_of (fire (ItemClick 0 (Fin 7)) tricked)) = Fin 7 \<and>
   currentMedia (state_of (fire (ItemClick 0 (Fin 7)) tricked)) = None \<and>
   \<not> index_ok (state_of (fire (ItemClick 0 (Fin 7)) tricked))"
proof -
  have m: "name_ok trick" by (simp add: name_ok_def has_markup_def trick_def)
  have p: "possible tricked (ItemClick 0 (Fin 7))" by (simp add: tricked_eq)
  have r: "reachable (state_of (fire (ItemClick 0 (Fin 7)) tricked))"
    using reachable_tricked p by (rule reachable.after)
  have i: "index_ok tricked" by (simp add: tricked_eq index_ok_def del: of_int_floor_cancel)
  have e: "fire (ItemClick 0 (Fin 7)) tricked =
      Threw (tricked\<lparr>currentIndex := Fin 7, errorMsg := None, dropZoneHidden := False,
        currentMedia := None\<rparr>)"
    by (simp add: tricked_eq item_click_def loadMedia_def clearError_def Let_def
        del: of_int_floor_cancel)
  have n: "\<not> index_ok (state_of (fire (ItemClick 0 (Fin 7)) tricked))"
    unfolding e by (simp add: tricked_eq index_ok_def)
  have f: "\<not> returned (fire (ItemClick 0 (Fin 7)) tricked)"
    "playlist (state_of (fire (ItemClick 0 (Fin 7)) tricked)) = [trick, song2]"
    "currentIndex (state_of (fire (ItemClick 0 (Fin 7)) tricked)) = Fin 7"
    "currentMedia (state_of (fire (ItemClick 0 (Fin 7)) tricked)) = None"
    unfolding e by (simp_all add: tricked_eq)
  have g: "playlist tricked = [trick, song2]"
    "rows_of (playlistEl tricked) = [OtherButton, PlayButton]"
    by (simp_all add: tricked_eq)
  from reachable_tricked g(1) i m g(2) p r f n show ?thesis by (intro conjI)
qed

text \<open>
  C8. With an audio or video element of finite duration \<open>d\<close>, \<open>seek\<close> and, during a
  drag, \<open>endThumbDrag\<close> set the position to the clamped fraction times \<open>d\<close>:
  \<open>Math.max(0, Math.min(1, x))\<close> is the nearest point of \<open>[0, 1]\<close>, so a fraction below 0
  gives position 0 and one above 1 gives \<open>d\<close>, also for the infinite fractions that a
  bar of width 0 produces.
\<close>
theorem seek_clamps_fraction:
  assumes "playable s = Some el" and "duration el = Fin d"
  shows "clamp01 (Fin x) = Fin (spec_clamp x) \<and>
     (pointer_fraction e = Fin x \<longrightarrow> seeks_to e s (spec_clamp x * d)) \<and>
     (pointer_fraction e = NegInf \<longrightarrow> seeks_to e s 0) \<and>
     (pointer_fraction e = PosInf \<longrightarrow> seeks_to e s d)"
  using seeks_to_clamped [OF assms, of e "spec_clamp x"] seeks_to_clamped [OF assms, of e 0]
    seeks_to_clamped [OF assms, of e 1]
  by (auto simp: clamp01_cases)

text \<open>
  C8, witness: on the first song with a duration of 200 seconds, the fraction -0.5 seeks
  to 0, the fraction 1.7 to 200, and a pointer right of a bar of width 0 to 200.
\<close>

theorem seek_clamps_fraction_witness:
  "playable (startThumbDrag timed) \<noteq> None \<and> thumbDragging (startThumbDrag timed) \<and>
   pointer_fraction \<lparr>clientX = - 50, rectLeft = 0, rectWidth = 100\<rparr> = Fin (- (1 / 2)) \<and>
   clamp01 (Fin (- (1 / 2))) = Fin 0 \<and>
   map_option currentTime (currentMedia (state_of
     (seek \<lparr>clientX = - 50, rectLeft = 0, rectWidth = 100\<rparr> (startThumbDrag timed)))) = Some 0 \<and>
   map_option currentTime (currentMedia (state_of
     (endThumbDrag \<lparr>clientX = - 50, rectLeft = 0, rectWidth = 100\<rparr> (startThumbDrag timed)))) =
     Some 0 \<and>
   pointer_fraction \<lparr>clientX = 170, rectLeft = 0, rectWidth = 100\<rparr> = Fin (17 / 10) \<and>
   clamp01 (Fin (17 / 10)) = Fin 1 \<and>
   map_option currentTime (currentMedia (state_of
     (seek \<lparr>clientX = 170, rectLeft = 0, rectWidth = 100\<rparr> (startThumbDrag timed)))) = Some 200 \<and>
   map_option currentTime (currentMedia (state_of
     (endThumbDrag \<lparr>clientX = 170, rectLeft = 0, rectWidth = 100\<rparr> (startThumbDrag timed)))) =
     Some 200 \<and>
   pointer_fraction \<lparr>clientX = 5, rectLeft = 0, rectWidth = 0\<rparr> = PosInf \<and>
   seeks_to \<lparr>clientX = 5, rectLeft = 0, rectWidth = 0\<rparr> (startThumbDrag timed) 200"
proof -
  let ?el = "\<lparr>tagName = AUDIO, src = 0, currentTime = 0, duration = Fin 200,
         paused = True, muted = False, volume = 1 / 2\<rparr>"
  have p: "playable (startThumbDrag timed) = Some ?el"
    by (simp add: timed_eq loaded2_eq startThumbDrag_def playable_def)
  have g: "thumbDragging (startThumbDrag timed)" by (simp add: startThumbDrag_def)
  have d: "duration ?el = Fin 200" by simp
  have f1: "pointer_fraction \<lparr>clientX = - 50, rectLeft = 0, rectWidth = 100\<rparr> = Fin (- (1 / 2))"
    and f2: "pointer_fraction \<lparr>clientX = 170, rectLeft = 0, rectWidth = 100\<rparr> = Fin (17 / 10)"
    and f3: "pointer_fraction \<lparr>clientX = 5, rectLeft = 0, rectWidth = 0\<rparr> = PosInf"
    by (simp_all add: pointer_fraction_def signed_inf_def)
  have c1: "spec_clamp (- (1 / 2)) = 0" and c2: "spec_clamp (17 / 10) = 1"
    by (simp_all add: spec_clamp_def)
  note w1 = seek_clamps_fraction [OF p d, of "- (1 / 2)" "\<lparr>clientX = - 50, rectLeft = 0, rectWidth = 100\<rparr>"]
  note w2 = seek_clamps_fraction [OF p d, of "17 / 10" "\<lparr>clientX = 170, rectLeft = 0, rectWidth = 100\<rparr>"]
  note w3 = seek_clamps_fraction [OF p d, of 0 "\<lparr>clientX = 5, rectLeft = 0, rectWidth = 0\<rparr>"]
  from w1 f1 c1 have a1: "clamp01 (Fin (- (1 / 2))) = Fin 0"
    "seeks_to \<lparr>clientX = - 50, rectLeft = 0, rectWidth = 100\<rparr> (startThumbDrag timed) 0"
    by simp_all
  from w2 f2 c2 have a2: "clamp01 (Fin (17 / 10)) = Fin 1"
    "seeks_to \<lparr>clientX = 170, rectLeft = 0, rectWidth = 100\<rparr> (startThumbDrag timed) 200"
    by simp_all
  from w3 f3 have a3:
    "seeks_to \<lparr>clientX = 5, rectLeft = 0, rectWidth = 0\<rparr> (startThumbDrag timed) 200"
    by simp
  from a1(2) a2(2) g have b:
    "map_option currentTime (currentMedia (state_of
       (seek \<lparr>clientX = - 50, rectLeft = 0, rectWidth = 100\<rparr> (startThumbDrag timed)))) = Some 0"
    "map_option currentTime (currentMedia (state_of
       (endThumbDrag \<lparr>clientX = - 50, rectLeft = 0, rectWidth = 100\<rparr> (startThumbDrag timed)))) =
       Some 0"
    "map_option currentTime (currentMedia (state_of
       (seek \<lparr>clientX = 170, rectLeft = 0, rectWidth = 100\<rparr> (startThumbDrag timed)))) = Some 200"
    "map_option currentTime (currentMedia (state_of
       (endThumbDrag \<lparr>clientX = 170, rectLeft = 0, rectWidth = 100\<rparr> (startThumbDrag timed)))) =
       Some 200"
    unfolding seeks_to_def by blast+
  from p g f1 f2 f3 a1(1) a2(1) a3 b show ?thesis by simp
qed

text \<open>
  C9, as amended. \<open>restoreState\<close> changes two things only: the listing, which shows the
  notice when the saved metadata is a non-empty array, and \<open>currentIndex\<close>, which
  becomes the saved index when that is finite, 0 when it is not, and stays as it is
  when reading the store throws. The playlist and every other field are unchanged.
\<close>
theorem restoreState_sets_index:
  "(restoreState st s)\<lparr>currentIndex := currentIndex s, playlistEl := playlistEl s\<rparr> = s \<and>
   currentIndex (restoreState st s) =
     (if meta st = MetaThrows then currentIndex s else Fin (finite_or_0 (idx st))) \<and>
   playlistEl (restoreState st s) =
     (if nonempty_array (meta st) then SavedNotice else playlistEl s)"
  by (cases "meta st") (simp_all add: restoreState_def Let_def)

text \<open>C9, witness: a store holding two entries and index 3.\<close>

theorem restoreState_sets_index_witness:
  "nonempty_array (meta \<lparr>meta = MetaArray 2, idx = Fin 3\<rparr>) \<and>
   playlist (restoreState \<lparr>meta = MetaArray 2, idx = Fin 3\<rparr> (initial_fields 50)) = [] \<and>
   currentIndex (restoreState \<lparr>meta = MetaArray 2, idx = Fin 3\<rparr> (initial_fields 50)) = Fin 3 \<and>
   playlistEl (restoreState \<lparr>meta = MetaArray 2, idx = Fin 3\<rparr> (initial_fields 50)) = SavedNotice"
proof -
  note w = restoreState_sets_index
    [where st = "\<lparr>meta = MetaArray 2, idx = Fin 3\<rparr>" and s = "initial_fields 50"]
  have n: "nonempty_array (meta \<lparr>meta = MetaArray 2, idx = Fin 3\<rparr>)" by simp
  from w have "currentIndex (restoreState \<lparr>meta = MetaArray 2, idx = Fin 3\<rparr> (initial_fields 50)) = Fin 3"
    by simp
  moreover from w have
    "playlistEl (restoreState \<lparr>meta = MetaArray 2, idx = Fin 3\<rparr> (initial_fields 50)) = SavedNotice"
    by simp
  moreover have
    "playlist (restoreState \<lparr>meta = MetaArray 2, idx = Fin 3\<rparr> (initial_fields 50)) =
     playlist (initial_fields 50)"
  proof -
    from w have "(restoreState \<lparr>meta = MetaArray 2, idx = Fin 3\<rparr> (initial_fields 50))
        \<lparr>currentIndex := currentIndex (initial_fields 50),
         playlistEl := playlistEl (initial_fields 50)\<rparr> = initial_fields 50"
      by blast
    then have "playlist ((restoreState \<lparr>meta = MetaArray 2, idx = Fin 3\<rparr> (initial_fields 50))
        \<lparr>currentIndex := currentIndex (initial_fields 50),
         playlistEl := playlistEl (initial_fields 50)\<rparr>) = playlist (initial_fields 50)"
      by (rule arg_cong)
    then show ?thesis by simp
  qed
  ultimately show ?thesis using n by (simp add: initial_fields_def)
qed

text \<open>
  C9, counterexample to the claim as stated (the restore leaves \<open>currentIndex\<close>
  unchanged): the constructor's 0 becomes the stored 3.
\<close>

theorem restoreState_index_counterexample:
  "currentIndex (initial_fields 50) = Fin 0 \<and>
   currentIndex (restoreState \<lparr>meta = MetaArray 2, idx = Fin 3\<rparr> (initial_fields 50)) = Fin 3"
  by (simp add: restoreState_def initial_fields_def Let_def)

text \<open>
  C10. While a drag is in progress, \<open>endThumbDrag\<close> (the handler of \<open>mouseup\<close> and
  \<open>touchend\<close>) leaves \<open>thumbDragging\<close> false in every state, also when it throws on
  a position that is not finite; with no element, or with an image, it returns having
  changed nothing else.
\<close>
theorem endThumbDrag_clears_dragging:
  assumes "thumbDragging s"
  shows "\<not> thumbDragging (state_of (endThumbDrag e s)) \<and>
     \<not> thumbDragging (state_of (fire (PointerUp e) s)) \<and>
     (playable s = None \<longrightarrow> endThumbDrag e s = Returned (s\<lparr>thumbDragging := False\<rparr>))"
proof -
  have "\<not> thumbDragging (state_of (set_currentTime (s\<lparr>thumbDragging := False\<rparr>) el v))" for el v
    by (cases v) (simp_all add: set_currentTime_def)
  then have "\<not> thumbDragging (state_of (endThumbDrag e s))"
    using assms by (simp add: endThumbDrag_def Let_def split: option.splits)
  moreover have "playable s = None \<longrightarrow> endThumbDrag e s = Returned (s\<lparr>thumbDragging := False\<rparr>)"
    using assms by (simp add: endThumbDrag_def Let_def playable_def)
  ultimately show ?thesis by simp
qed

text \<open>C10, witness: a drag started and ended on a fresh session, where nothing is loaded.\<close>

theorem endThumbDrag_clears_dragging_witness:
  "thumbDragging (startThumbDrag fresh) \<and> playable (startThumbDrag fresh) = None \<and>
   \<not> thumbDragging (state_of (endThumbDrag \<lparr>clientX = 30, rectLeft = 0, rectWidth = 100\<rparr>
      (startThumbDrag fresh))) \<and>
   endThumbDrag \<lparr>clientX = 30, rectLeft = 0, rectWidth = 100\<rparr> (startThumbDrag fresh) =
     Returned fresh"
proof -
  have h: "thumbDragging (startThumbDrag fresh)" by (simp add: startThumbDrag_def)
  have p: "playable (startThumbDrag fresh) = None"
    by (simp add: startThumbDrag_def playable_def fresh_eq)
  have e: "(startThumbDrag fresh)\<lparr>thumbDragging := False\<rparr> = fresh"
    by (simp add: startThumbDrag_def fresh_eq)
  note w = endThumbDrag_clears_dragging
    [OF h, of "\<lparr>clientX = 30, rectLeft = 0, rectWidth = 100\<rparr>", unfolded e]
  from w have a: "\<not> thumbDragging (state_of (endThumbDrag
      \<lparr>clientX = 30, rectLeft = 0, rectWidth = 100\<rparr> (startThumbDrag fresh)))"
    by blast
  from w p have b: "endThumbDrag \<lparr>clientX = 30, rectLeft = 0, rectWidth = 100\<rparr>
      (startThumbDrag fresh) = Returned fresh"
    by blast
  from h p a b show ?thesis by blast
qed

end
